theory Spec2Isabelle
  imports Complex_Main "HOL-Library.AList" "HOL-Library.Multiset"
begin

section \<open>Investor pack extraction: \<^verbatim>\<open>scripts/create-pack-xlsx.py\<close>\<close>

text \<open>
  The script opens a source workbook, copies the configured sheets into a new workbook,
  gives every copied sheet a print area and a page setup, saves the new workbook and
  reports a result dictionary. The spreadsheet objects belong to the openpyxl library;
  they are modelled here as records, with the library operations the script calls
  written out as functions on these records. Exceptions are values of type \<open>error\<close>,
  and every function that can raise returns \<open>error + 'a\<close>. A workbook is the list of
  its worksheets (chart sheets are left out), and the values of the configuration have
  the types of the configuration format: strings for names, integers for \<open>order\<close>,
  \<open>expected_pages\<close> and \<open>page_tolerance\<close>, an orientation the library accepts.
  Printing is left out.
\<close>

subsection \<open>Errors\<close>

datatype error =
    KeyError string
  | ValueError string
  | AttributeError string
  | LoadError string
  | SaveError string
  | ConfigError string

subsection \<open>Decimal rendering of integers (\<^verbatim>\<open>str(n)\<close>, f-string interpolation)\<close>

definition digit_char :: "nat \<Rightarrow> char" where
  "digit_char d = ''0123456789'' ! d"

fun str_nat :: "nat \<Rightarrow> string" where
  "str_nat n = (if n < 10 then [digit_char n] else str_nat (n div 10) @ [digit_char (n mod 10)])"

declare str_nat.simps [simp del]

definition str_int :: "int \<Rightarrow> string" where
  "str_int i = (if i < 0 then CHR ''-'' # str_nat (nat (- i)) else str_nat (nat i))"

subsection \<open>Spreadsheet data\<close>

datatype orientation_t = portrait | landscape | default_orientation

text \<open>
  The page-setup object of a sheet. \<open>fitToPage\<close> is kept by the library among the
  properties of the worksheet and is read and written through the page-setup object,
  which needs its reference to the worksheet for that: \<open>worksheet_bound\<close> tells whether
  the object has it. The page setup a new sheet is created with has it; one parsed from
  the \<open>pageSetup\<close> element of a file has not. \<open>other_attrs\<close> stands for the attributes
  the script never touches (first page number, DPI, copies, ...).
\<close>

record page_setup =
  worksheet_bound :: bool
  ps_orientation :: "orientation_t option"
  paperSize :: "int option"
  scale :: "int option"
  fitToPage :: "bool option"
  fitToWidth :: "int option"
  fitToHeight :: "int option"
  other_attrs :: "(string \<times> string) list"

record page_margins =
  left :: real
  right :: real
  top_ :: real
  bottom :: real
  header :: real
  footer :: real

datatype cell_value = NoValue | Number real | Text string | Boolean bool

record cell_style =
  font :: string
  border :: string
  fill :: string
  number_format :: string
  alignment :: string
  protection :: string

text \<open>
  A stored cell is either a \<open>MergedCell\<close> (a subordinate cell of a merged range, which
  has no value of its own) or an ordinary cell with a raw value and, when
  \<^verbatim>\<open>has_style\<close> holds, a style. With \<^verbatim>\<open>data_only=False\<close> a formula is the text of
  the formula, a \<open>Text\<close> value starting with \<open>=\<close>.
\<close>

datatype cell = MergedCell | Cell (cell_value: cell_value) (cell_style: "cell_style option")

type_synonym address = "nat \<times> nat"

text \<open>A range is its top-left and its bottom-right address, (row, column) each.\<close>

type_synonym cell_range = "address \<times> address"

type_synonym column_dimension = "real option \<times> bool"

type_synonym row_dimension = "real option \<times> bool"

record worksheet =
  title :: string
  cells :: "(address \<times> cell) list"
  merged_cells :: "cell_range list"
  print_area :: "string option"
  page_setup :: page_setup
  page_margins :: page_margins
  column_dimensions :: "(string \<times> column_dimension) list"
  row_dimensions :: "(nat \<times> row_dimension) list"

type_synonym workbook = "worksheet list"

subsection \<open>Configuration and result\<close>

text \<open>
  One entry of \<^verbatim>\<open>pack_sheets\<close>. Every key may be absent from the JSON object:
  \<^verbatim>\<open>name\<close> is read with \<^verbatim>\<open>[]\<close> (a \<^verbatim>\<open>KeyError\<close> when absent), the others with
  \<^verbatim>\<open>.get\<close> and a default.
\<close>

record sheet_config =
  name :: "string option"
  order :: "int option"
  orientation :: "orientation_t option"
  expected_pages :: "int option"

record config =
  pack_sheets :: "sheet_config list option"
  page_tolerance :: "int option"

text \<open>
  The result dictionary; \<open>result_expected_pages\<close> is its key \<^verbatim>\<open>expected_pages\<close> and
  \<open>result_page_tolerance\<close> its key \<^verbatim>\<open>page_tolerance\<close>.
\<close>

record result =
  success :: bool
  source :: string
  output_ :: string
  sheets_copied :: "string list"
  sheets_missing :: "string list"
  result_expected_pages :: int
  result_page_tolerance :: int

subsection \<open>Print area\<close>

definition DEFAULT_PRINT_COLUMNS :: "(string \<times> string) list" where
  "DEFAULT_PRINT_COLUMNS =
    [(''Investment Summary'', ''M''),
     (''Returns Summary'', ''G''),
     (''Error Check'', ''F''),
     (''Model Outputs'', ''H''),
     (''Annual CF'', ''N''),
     (''Assumptions'', ''F''),
     (''Rent Roll'', ''L''),
     (''Renovation Budget'', ''E''),
     (''Monthly CF'', ''BM'')]"

definition DEFAULT_PRINT_ROWS :: "(string \<times> int) list" where
  "DEFAULT_PRINT_ROWS =
    [(''Investment Summary'', 50),
     (''Returns Summary'', 40),
     (''Error Check'', 30),
     (''Model Outputs'', 60),
     (''Annual CF'', 45),
     (''Assumptions'', 80),
     (''Rent Roll'', 50),
     (''Renovation Budget'', 40),
     (''Monthly CF'', 60)]"

text \<open>\<^verbatim>\<open>d.get(k, default)\<close> on a dictionary.\<close>

definition dict_get :: "('k \<times> 'v) list \<Rightarrow> 'k \<Rightarrow> 'v \<Rightarrow> 'v" where
  "dict_get d k dflt = (case map_of d k of None \<Rightarrow> dflt | Some v \<Rightarrow> v)"

text \<open>
  Truth value of \<^verbatim>\<open>sheet.print_area\<close>: \<^verbatim>\<open>None\<close> and the empty string are false.
\<close>

definition print_area_declared :: "worksheet \<Rightarrow> bool" where
  "print_area_declared sheet = (case print_area sheet of None \<Rightarrow> False | Some s \<Rightarrow> s \<noteq> [])"

definition get_print_area :: "worksheet \<Rightarrow> string \<Rightarrow> string" where
  "get_print_area sheet sheet_name =
    (if print_area_declared sheet then the (print_area sheet)
     else
       let max_col = dict_get DEFAULT_PRINT_COLUMNS sheet_name ''Z'';
           max_row = dict_get DEFAULT_PRINT_ROWS sheet_name 100
       in ''A1:'' @ max_col @ str_int max_row)"

subsection \<open>Library objects as the script uses them\<close>

text \<open>
  A page-setup object is true when one of its stored attributes is set; \<open>fitToPage\<close>
  is not among them.
\<close>

definition page_setup_bool :: "page_setup \<Rightarrow> bool" where
  "page_setup_bool ps =
    (ps_orientation ps \<noteq> None \<or> paperSize ps \<noteq> None \<or> scale ps \<noteq> None
     \<or> fitToHeight ps \<noteq> None \<or> fitToWidth ps \<noteq> None \<or> other_attrs ps \<noteq> [])"

definition PrintPageSetup :: page_setup where
  "PrintPageSetup =
    \<lparr>worksheet_bound = True, ps_orientation = None, paperSize = None, scale = None,
     fitToPage = None, fitToWidth = None, fitToHeight = None, other_attrs = []\<rparr>"

definition PageMargins :: "real \<Rightarrow> real \<Rightarrow> real \<Rightarrow> real \<Rightarrow> real \<Rightarrow> real \<Rightarrow> page_margins" where
  "PageMargins l r t b h f =
    \<lparr>left = l, right = r, top_ = t, bottom = b, header = h, footer = f\<rparr>"

text \<open>A new, empty sheet with the library's default margins.\<close>

definition Worksheet :: "string \<Rightarrow> worksheet" where
  "Worksheet t =
    \<lparr>title = t, cells = [], merged_cells = [], print_area = None,
     page_setup = PrintPageSetup, page_margins = PageMargins 0.75 0.75 1 1 0.5 0.5,
     column_dimensions = [], row_dimensions = []\<rparr>"

text \<open>\<^verbatim>\<open>for x in xs: body\<close> where the body may raise: the first error ends the loop.\<close>

fun for_each :: "('a \<Rightarrow> 's \<Rightarrow> error + 's) \<Rightarrow> 'a list \<Rightarrow> 's \<Rightarrow> error + 's" where
  "for_each body [] s = Inr s"
| "for_each body (x # xs) s =
    (case body x s of Inl e \<Rightarrow> Inl e | Inr s' \<Rightarrow> for_each body xs s')"

text \<open>
  \<^verbatim>\<open>ws.cell(row, column)\<close>: the stored cell, or a new empty one. \<open>value_at\<close> is what
  \<^verbatim>\<open>ws.cell(row, column).value\<close> reads; the value of a \<open>MergedCell\<close> is \<^verbatim>\<open>None\<close>.
\<close>

definition get_cell :: "worksheet \<Rightarrow> address \<Rightarrow> cell" where
  "get_cell ws a = (case map_of (cells ws) a of None \<Rightarrow> Cell NoValue None | Some c \<Rightarrow> c)"

definition value_at :: "worksheet \<Rightarrow> address \<Rightarrow> cell_value" where
  "value_at ws a = (case get_cell ws a of MergedCell \<Rightarrow> NoValue | Cell v st \<Rightarrow> v)"

text \<open>The addresses of a range, row by row; the first is the top-left anchor.\<close>

fun range_cells :: "cell_range \<Rightarrow> address list" where
  "range_cells ((r1, c1), (r2, c2)) =
    concat (map (\<lambda>r. map (\<lambda>c. (r, c)) [c1..<Suc c2]) [r1..<Suc r2])"

definition subordinate_cells :: "cell_range \<Rightarrow> address list" where
  "subordinate_cells rng = tl (range_cells rng)"

text \<open>Whether a range lies inside another (the library's \<^verbatim>\<open>issubset\<close>, \<^verbatim>\<open><=\<close>).\<close>

fun issubset :: "cell_range \<Rightarrow> cell_range \<Rightarrow> bool" where
  "issubset ((r1, c1), (r2, c2)) ((r1', c1'), (r2', c2')) =
    (r1' \<le> r1 \<and> r2 \<le> r2' \<and> c1' \<le> c1 \<and> c2 \<le> c2')"

text \<open>
  \<^verbatim>\<open>ws.merge_cells(range)\<close>: the anchor cell is created when it does not exist; the
  range joins the merged ranges of the sheet unless it lies inside one of them; and
  every other cell of the range is replaced by a \<open>MergedCell\<close>, in both cases. The list
  \<open>merged_cells\<close> holds the ranges of a sheet in the order in which the library
  iterates over them.
\<close>

definition merge_cells :: "worksheet \<Rightarrow> cell_range \<Rightarrow> worksheet" where
  "merge_cells ws rng =
    (let cs = (if map_of (cells ws) (fst rng) = None
               then AList.update (fst rng) (Cell NoValue None) (cells ws) else cells ws)
     in ws\<lparr>cells := fold (\<lambda>a. AList.update a MergedCell) (subordinate_cells rng) cs,
           merged_cells := (if \<exists>r \<in> set (merged_cells ws). issubset rng r
                            then merged_cells ws
                            else merged_cells ws @ [rng])\<rparr>)"

text \<open>
  \<^verbatim>\<open>ws.iter_rows()\<close>: every address of the box from (1, 1) to
  (\<^verbatim>\<open>max_row\<close>, \<^verbatim>\<open>max_column\<close>), row by row; nothing for a sheet without cells.
\<close>

definition max_row :: "worksheet \<Rightarrow> nat" where
  "max_row ws = fold max (map (\<lambda>(a, c). fst a) (cells ws)) 1"

definition max_column :: "worksheet \<Rightarrow> nat" where
  "max_column ws = fold max (map (\<lambda>(a, c). snd a) (cells ws)) 1"

definition iter_rows :: "worksheet \<Rightarrow> address list" where
  "iter_rows ws =
    (if cells ws = [] then [] else range_cells ((1, 1), (max_row ws, max_column ws)))"

subsection \<open>Page setup\<close>

text \<open>\<^verbatim>\<open>config_sheet.get("orientation", "portrait")\<close>.\<close>

definition get_orientation :: "sheet_config \<Rightarrow> orientation_t" where
  "get_orientation config_sheet =
    (case orientation config_sheet of None \<Rightarrow> portrait | Some v \<Rightarrow> v)"

text \<open>
  Reading and writing \<^verbatim>\<open>page_setup.fitToPage\<close> goes through the worksheet of the
  page-setup object, and raises when the object has none
  (\<^verbatim>\<open>'NoneType' object has no attribute 'sheet_properties'\<close>).
\<close>

definition get_fitToPage :: "page_setup \<Rightarrow> error + bool option" where
  "get_fitToPage ps =
    (if worksheet_bound ps then Inr (fitToPage ps)
     else Inl (AttributeError ''sheet_properties''))"

definition set_fitToPage :: "page_setup \<Rightarrow> bool option \<Rightarrow> error + page_setup" where
  "set_fitToPage ps v =
    (if worksheet_bound ps then Inr (ps\<lparr>fitToPage := v\<rparr>)
     else Inl (AttributeError ''sheet_properties''))"

text \<open>
  The assignments in the order of the source: with a non-empty page setup of the source,
  paper size and scale, then \<open>fitToPage\<close> (read from the source, written to the
  destination), then the other two; else the three defaults; then orientation and
  margins. An exception leaves the function before the later assignments.
\<close>

definition apply_page_setup ::
    "worksheet \<Rightarrow> sheet_config \<Rightarrow> worksheet \<Rightarrow> error + worksheet" where
  "apply_page_setup dest_sheet config_sheet source_sheet =
    (let orientation' = get_orientation config_sheet;
         src = page_setup source_sheet
     in case
          (if page_setup_bool src
           then
             (case get_fitToPage src of
                Inl e \<Rightarrow> Inl e
              | Inr v \<Rightarrow>
                 (case set_fitToPage
                         ((page_setup dest_sheet)
                            \<lparr>paperSize := paperSize src, scale := scale src\<rparr>) v of
                    Inl e \<Rightarrow> Inl e
                  | Inr ps \<Rightarrow>
                     Inr (ps\<lparr>fitToWidth := fitToWidth src,
                             fitToHeight := fitToHeight src\<rparr>)))
           else
             (case set_fitToPage (page_setup dest_sheet) (Some True) of
                Inl e \<Rightarrow> Inl e
              | Inr ps \<Rightarrow> Inr (ps\<lparr>fitToWidth := Some 1, fitToHeight := Some 0\<rparr>)))
        of
          Inl e \<Rightarrow> Inl e
        | Inr ps1 \<Rightarrow>
           Inr (dest_sheet
                 \<lparr>page_setup := ps1\<lparr>ps_orientation := Some orientation'\<rparr>,
                  page_margins := PageMargins 0.5 0.5 0.5 0.5 0.3 0.3\<rparr>))"

subsection \<open>Copying the content of a sheet\<close>

text \<open>
  The body of the cell loop. A \<open>MergedCell\<close> of the source is skipped. Otherwise the
  cell of the destination at the same address is fetched (created when absent) and
  receives the value and, when the source cell has a style, the six style attributes.
  Assigning a value to a \<open>MergedCell\<close> of the destination raises.
\<close>

definition copy_cell :: "worksheet \<Rightarrow> address \<Rightarrow> worksheet \<Rightarrow> error + worksheet" where
  "copy_cell source_sheet a dest_sheet =
    (case get_cell source_sheet a of
       MergedCell \<Rightarrow> Inr dest_sheet
     | Cell v st \<Rightarrow>
        (case get_cell dest_sheet a of
           MergedCell \<Rightarrow> Inl (AttributeError ''value'')
         | Cell dv dst \<Rightarrow>
            Inr (dest_sheet\<lparr>cells :=
              AList.update a (Cell v (if st \<noteq> None then st else dst)) (cells dest_sheet)\<rparr>)))"

definition copy_column_dimension ::
    "string \<times> column_dimension \<Rightarrow> worksheet \<Rightarrow> worksheet" where
  "copy_column_dimension kv dest_sheet =
    dest_sheet\<lparr>column_dimensions := AList.update (fst kv) (snd kv) (column_dimensions dest_sheet)\<rparr>"

definition copy_row_dimension :: "nat \<times> row_dimension \<Rightarrow> worksheet \<Rightarrow> worksheet" where
  "copy_row_dimension kv dest_sheet =
    dest_sheet\<lparr>row_dimensions := AList.update (fst kv) (snd kv) (row_dimensions dest_sheet)\<rparr>"

definition copy_sheet_content :: "worksheet \<Rightarrow> worksheet \<Rightarrow> error + worksheet" where
  "copy_sheet_content source_sheet dest_sheet =
    (let d1 = fold (\<lambda>merged_range d. merge_cells d merged_range)
                (merged_cells source_sheet) dest_sheet
     in case for_each (copy_cell source_sheet) (iter_rows source_sheet) d1 of
          Inl e \<Rightarrow> Inl e
        | Inr d2 \<Rightarrow>
           Inr (fold copy_row_dimension (row_dimensions source_sheet)
                 (fold copy_column_dimension (column_dimensions source_sheet) d2)))"

subsection \<open>Sheet titles in a workbook\<close>

text \<open>
  Strings are compared without regard to (ASCII) case when the library looks for a
  title that is already taken.
\<close>

definition lower_char :: "char \<Rightarrow> char" where
  "lower_char c =
    (let n = (of_char c :: nat) in if 65 \<le> n \<and> n \<le> 90 then char_of (n + 32) else c)"

definition lower :: "string \<Rightarrow> string" where
  "lower s = map lower_char s"

definition is_digit :: "char \<Rightarrow> bool" where
  "is_digit c = (let n = (of_char c :: nat) in 48 \<le> n \<and> n \<le> 57)"

definition int_of_digits :: "string \<Rightarrow> nat" where
  "int_of_digits ds = foldl (\<lambda>n c. 10 * n + ((of_char c :: nat) - 48)) 0 ds"

text \<open>
  The counters found by the library's search for \<^verbatim>\<open>value\<close>, then digits, then an
  optional comma, in the comma-joined titles: one number for every occurrence of
  \<^verbatim>\<open>value\<close> (case ignored) that is followed by digits.
\<close>

function title_counts :: "string \<Rightarrow> string \<Rightarrow> nat list" where
  "title_counts v s =
    (if s = [] then []
     else if lower v = take (length v) (lower s) then
       (let rest = drop (length v) s;
            ds = takeWhile is_digit rest;
            rest1 = dropWhile is_digit rest;
            rest2 = (case rest1 of [] \<Rightarrow> [] | c # r \<Rightarrow> if c = CHR '','' then r else rest1)
        in (if ds = [] then [] else [int_of_digits ds])
           @ (if length rest2 < length s then title_counts v rest2 else title_counts v (tl s)))
     else title_counts v (tl s))"
  by pat_completeness auto
termination
  by (relation "measure (\<lambda>(v, s). length s)") auto

declare title_counts.simps [simp del]

fun join_names :: "string list \<Rightarrow> string" where
  "join_names [] = []"
| "join_names [n] = n"
| "join_names (n # ns) = n @ '','' @ join_names ns"

text \<open>
  \<^verbatim>\<open>avoid_duplicate_name(names, value)\<close>: \<^verbatim>\<open>value\<close> itself when no title equals it
  (case ignored), else \<^verbatim>\<open>value\<close> with the next free counter appended.
\<close>

definition avoid_duplicate_name :: "string list \<Rightarrow> string \<Rightarrow> string" where
  "avoid_duplicate_name names v =
    (if \<exists>n \<in> set names. lower n = lower v
     then v @ str_nat (fold max (title_counts v (join_names names)) 0 + 1)
     else v)"

definition INVALID_TITLE_CHARS :: "char list" where
  "INVALID_TITLE_CHARS =
    [CHR 0x5C, CHR ''*'', CHR ''?'', CHR '':'', CHR ''/'', CHR ''['', CHR '']'']"

text \<open>
  Assigning \<^verbatim>\<open>sheet.title = value\<close> in a workbook whose titles are \<open>names\<close>, for a
  sheet titled \<open>old\<close>: a forbidden character raises; a title that differs from the
  old one is made unique first. The function returns the title the sheet gets.
\<close>

definition set_title :: "string list \<Rightarrow> string \<Rightarrow> string \<Rightarrow> error + string" where
  "set_title names old v =
    (if \<exists>c \<in> set v. c \<in> set INVALID_TITLE_CHARS then Inl (ValueError v)
     else Inr (if old \<noteq> v then avoid_duplicate_name names v else v))"

definition sheetnames :: "workbook \<Rightarrow> string list" where
  "sheetnames wb = map title wb"

text \<open>\<^verbatim>\<open>Workbook()\<close> starts with one sheet, titled \<open>Sheet\<close>; it is the active sheet.\<close>

definition Workbook :: workbook where
  "Workbook = [Worksheet ''Sheet'']"

text \<open>
  \<^verbatim>\<open>wb.create_sheet(title=t)\<close> appends a new sheet; an empty title is replaced by the
  default title. The new sheet is the last one of the workbook returned.
\<close>

definition create_sheet :: "workbook \<Rightarrow> string \<Rightarrow> error + workbook" where
  "create_sheet wb t =
    (case set_title (sheetnames wb) [] (if t = [] then ''Sheet'' else t) of
       Inl e \<Rightarrow> Inl e
     | Inr t' \<Rightarrow> Inr (wb @ [Worksheet t']))"

text \<open>\<^verbatim>\<open>wb[name]\<close>: the first sheet with this title.\<close>

definition getitem :: "workbook \<Rightarrow> string \<Rightarrow> error + worksheet" where
  "getitem wb key =
    (case find (\<lambda>sheet. title sheet = key) wb of
       None \<Rightarrow> Inl (KeyError key) | Some sheet \<Rightarrow> Inr sheet)"

subsection \<open>The files of a run\<close>

text \<open>
  What the script reads from and writes to the file system: whether a path exists,
  the result of parsing the configuration file, the result of loading the source
  workbook, and whether creating the parent directory and saving the workbook at a path
  fails. The last field is the library's print-area setter: assigning a string to
  \<^verbatim>\<open>sheet.print_area\<close> parses it, and reading the attribute renders the ranges again
  (absolute coordinates, qualified by the title of the sheet), so what the destination
  sheet holds is a function of its title and the assigned string. The function is left
  open: every property below holds for each.
\<close>

record env =
  path_exists :: "string \<Rightarrow> bool"
  load_pack_config :: "string \<Rightarrow> error + config"
  load_workbook :: "string \<Rightarrow> error + workbook"
  save :: "workbook \<Rightarrow> string \<Rightarrow> error option"
  assign_print_area :: "string \<Rightarrow> string \<Rightarrow> string option"

subsection \<open>Creating the pack workbook\<close>

text \<open>
  The sort key \<^verbatim>\<open>x.get("order", 999)\<close>; \<^verbatim>\<open>sorted\<close> is a stable sort, as
  \<open>sort_key\<close> is.
\<close>

definition order_key :: "sheet_config \<Rightarrow> int" where
  "order_key x = (case order x of None \<Rightarrow> 999 | Some n \<Rightarrow> n)"

text \<open>\<^verbatim>\<open>config.get("pack_sheets", [])\<close>.\<close>

definition configured_sheets :: "config \<Rightarrow> sheet_config list" where
  "configured_sheets cfg = (case pack_sheets cfg of None \<Rightarrow> [] | Some ps \<Rightarrow> ps)"

definition sorted_pack_sheets :: "config \<Rightarrow> sheet_config list" where
  "sorted_pack_sheets cfg = sort_key order_key (configured_sheets cfg)"

text \<open>\<^verbatim>\<open>sheet_config.get("expected_pages", 1)\<close>.\<close>

definition get_expected_pages :: "sheet_config \<Rightarrow> int" where
  "get_expected_pages sheet_config =
    (case expected_pages sheet_config of None \<Rightarrow> 1 | Some n \<Rightarrow> n)"

text \<open>
  The variables the loop updates. The default sheet is the sheet at index 0 of the
  destination workbook for the whole run: sheets are only ever appended.
\<close>

record loop_state =
  dest_wb :: workbook
  copied :: "string list"
  missing :: "string list"
  total_expected_pages :: int

text \<open>
  Creating the destination sheet: for the loop index 0 the default sheet is renamed,
  otherwise a sheet is appended. The result is the workbook and the index of the
  destination sheet in it. The workbook is never empty: it starts as \<open>Workbook\<close> and
  only grows.
\<close>

definition create_dest_sheet :: "workbook \<Rightarrow> nat \<Rightarrow> string \<Rightarrow> error + (workbook \<times> nat)" where
  "create_dest_sheet wb i sheet_name =
    (if i = 0 then
       (case set_title (sheetnames wb) (title (wb ! 0)) sheet_name of
          Inl e \<Rightarrow> Inl e
        | Inr t \<Rightarrow> Inr (wb[0 := (wb ! 0)\<lparr>title := t\<rparr>], 0))
     else
       (case create_sheet wb sheet_name of
          Inl e \<Rightarrow> Inl e
        | Inr wb' \<Rightarrow> Inr (wb', length wb' - 1)))"

definition process_sheet ::
    "env \<Rightarrow> workbook \<Rightarrow> nat \<times> sheet_config \<Rightarrow> loop_state \<Rightarrow> error + loop_state" where
  "process_sheet e source_wb isc st =
    (case name (snd isc) of
       None \<Rightarrow> Inl (KeyError ''name'')
     | Some sheet_name \<Rightarrow>
        (let pages = get_expected_pages (snd isc) in
         if sheet_name \<notin> set (sheetnames source_wb)
         then Inr (st\<lparr>missing := missing st @ [sheet_name]\<rparr>)
         else
           (case getitem source_wb sheet_name of
              Inl err \<Rightarrow> Inl err
            | Inr source_sheet \<Rightarrow>
               (case create_dest_sheet (dest_wb st) (fst isc) sheet_name of
                  Inl err \<Rightarrow> Inl err
                | Inr (wb, k) \<Rightarrow>
                   (case copy_sheet_content source_sheet (wb ! k) of
                      Inl err \<Rightarrow> Inl err
                    | Inr d1 \<Rightarrow>
                       (let d2 = d1\<lparr>print_area :=
                                     assign_print_area e (title d1)
                                       (get_print_area source_sheet sheet_name)\<rparr>
                        in case apply_page_setup d2 (snd isc) source_sheet of
                             Inl err \<Rightarrow> Inl err
                           | Inr d3 \<Rightarrow>
                              Inr \<lparr>dest_wb = wb[k := d3],
                                   copied = copied st @ [sheet_name],
                                   missing = missing st,
                                   total_expected_pages =
                                     total_expected_pages st + pages\<rparr>))))))"

text \<open>
  \<open>create_pack_workbook\<close> returns the result dictionary together with the workbook
  saved at \<open>output_path\<close>.
\<close>

definition create_pack_workbook ::
    "env \<Rightarrow> string \<Rightarrow> string \<Rightarrow> config \<Rightarrow> error + (result \<times> workbook)" where
  "create_pack_workbook e source_path output_path cfg =
    (case load_workbook e source_path of
       Inl err \<Rightarrow> Inl err
     | Inr source_wb \<Rightarrow>
        (case for_each (process_sheet e source_wb) (enumerate 0 (sorted_pack_sheets cfg))
                \<lparr>dest_wb = Workbook, copied = [], missing = [],
                 total_expected_pages = 0\<rparr> of
           Inl err \<Rightarrow> Inl err
         | Inr st \<Rightarrow>
            (case save e (dest_wb st) output_path of
               Some err \<Rightarrow> Inl err
             | None \<Rightarrow>
                Inr (\<lparr>success = True,
                      source = source_path,
                      output_ = output_path,
                      sheets_copied = copied st,
                      sheets_missing = missing st,
                      result_expected_pages = total_expected_pages st,
                      result_page_tolerance =
                        (case page_tolerance cfg of None \<Rightarrow> 2 | Some n \<Rightarrow> n)\<rparr>,
                     dest_wb st))))"

subsection \<open>The command line\<close>

record args =
  arg_source :: string
  arg_output :: string
  arg_config :: string
  arg_json :: bool

text \<open>
  The exit code of \<^verbatim>\<open>main\<close>. An exception of \<open>load_pack_config\<close> is not caught and
  ends the interpreter with status 1; one of \<open>create_pack_workbook\<close> is caught and
  turned into \<^verbatim>\<open>sys.exit(1)\<close>.
\<close>

definition main :: "env \<Rightarrow> args \<Rightarrow> int" where
  "main e a =
    (if \<not> path_exists e (arg_source a) then 1
     else if \<not> path_exists e (arg_config a) then 1
     else
       (case load_pack_config e (arg_config a) of
          Inl err \<Rightarrow> 1
        | Inr cfg \<Rightarrow>
           (case create_pack_workbook e (arg_source a) (arg_output a) cfg of
              Inl err \<Rightarrow> 1
            | Inr (res, wb) \<Rightarrow> (if success res then 0 else 1))))"

subsection \<open>Vocabulary of the properties\<close>

text \<open>
  A configured sheet is found when its name is the title of a sheet of the source
  workbook: the test \<^verbatim>\<open>sheet_name not in source_sheets\<close> of the loop.
\<close>

definition found_in :: "workbook \<Rightarrow> sheet_config \<Rightarrow> bool" where
  "found_in source_wb sheet_config =
    (case name sheet_config of
       None \<Rightarrow> False | Some n \<Rightarrow> n \<in> set (sheetnames source_wb))"

text \<open>The names of a list of configured sheets, in the order of the list.\<close>

definition names_of :: "sheet_config list \<Rightarrow> string list" where
  "names_of ps = List.map_filter name ps"

text \<open>
  Whether the first entry in processing order is found: the one case in which the loop
  renames the default sheet.
\<close>

definition first_found :: "workbook \<Rightarrow> sheet_config list \<Rightarrow> bool" where
  "first_found source_wb ps =
    (case ps of [] \<Rightarrow> False | sc # rest \<Rightarrow> found_in source_wb sc)"

text \<open>
  What the library guarantees of every sheet it has loaded: a title has none of the
  forbidden characters, and the subordinate cells of every merged range are
  \<open>MergedCell\<close>s. A sheet loaded from a file has the empty page setup of a new
  sheet when the file has no \<open>pageSetup\<close> element for it, and an unbound one parsed
  from the element otherwise; \<open>no_page_setup\<close> says that the page setup is empty.
\<close>

definition valid_title :: "string \<Rightarrow> bool" where
  "valid_title t = (\<forall>c \<in> set t. c \<notin> set INVALID_TITLE_CHARS)"

definition well_formed_sheet :: "worksheet \<Rightarrow> bool" where
  "well_formed_sheet ws =
    (\<forall>rng \<in> set (merged_cells ws). \<forall>a \<in> set (subordinate_cells rng).
       get_cell ws a = MergedCell)"

definition no_page_setup :: "worksheet \<Rightarrow> bool" where
  "no_page_setup ws = (\<not> page_setup_bool (page_setup ws))"

text \<open>No range of the list lies inside another one.\<close>

definition non_nested :: "cell_range list \<Rightarrow> bool" where
  "non_nested rs = (\<forall>r \<in> set rs. \<forall>r' \<in> set rs. issubset r r' \<longrightarrow> r = r')"

subsection \<open>Example data\<close>

text \<open>
  A sheet with the cells A1 = 42, B1 = \<open>=A1*2\<close>, A2 = \<open>Total\<close> and the merged range
  A2:B3, and a source workbook of this sheet and two empty ones; none of them has a page
  setup of its own.
\<close>

definition example_sheet :: worksheet where
  "example_sheet =
    merge_cells
      ((Worksheet ''Data'')\<lparr>cells :=
         [((1, 1), Cell (Number 42) None),
          ((1, 2), Cell (Text ''=A1*2'') None),
          ((2, 1), Cell (Text ''Total'') None)]\<rparr>)
      ((2, 1), (3, 2))"

definition example_source :: workbook where
  "example_source = [Worksheet ''Summary'', example_sheet, Worksheet ''Notes'']"

text \<open>
  A sheet as loaded from a file with a \<open>pageSetup\<close> element (landscape, paper size 9,
  scale 80): its page setup is not empty and not bound to the sheet.
\<close>

definition example_summary :: worksheet where
  "example_summary =
    (Worksheet ''Summary'')
      \<lparr>page_setup :=
         \<lparr>worksheet_bound = False, ps_orientation = Some landscape, paperSize = Some 9,
          scale = Some 80, fitToPage = None, fitToWidth = None, fitToHeight = None,
          other_attrs = []\<rparr>\<rparr>"

definition example_source_with_page_setup :: workbook where
  "example_source_with_page_setup = [example_summary, example_sheet, Worksheet ''Notes'']"

text \<open>
  A sheet as loaded from a file in which the range A1:B1 is merged inside the merged
  range A1:B2, the larger one first in the order of iteration.
\<close>

definition nested_sheet :: worksheet where
  "nested_sheet =
    (merge_cells (Worksheet ''Nested'') ((1, 1), (2, 2)))
      \<lparr>merged_cells := [((1, 1), (2, 2)), ((1, 1), (1, 2))]\<rparr>"

definition summary_spec :: sheet_config where
  "summary_spec =
    \<lparr>name = Some ''Summary'', order = Some 1, orientation = None, expected_pages = Some 3\<rparr>"

definition missing_spec :: sheet_config where
  "missing_spec =
    \<lparr>name = Some ''Missing'', order = Some 1, orientation = None, expected_pages = Some 5\<rparr>"

definition notes_spec :: sheet_config where
  "notes_spec =
    \<lparr>name = Some ''Notes'', order = Some 1, orientation = Some portrait,
     expected_pages = None\<rparr>"

definition data_spec :: sheet_config where
  "data_spec =
    \<lparr>name = Some ''Data'', order = None, orientation = Some landscape,
     expected_pages = Some 4\<rparr>"

definition example_pack :: config where
  "example_pack =
    \<lparr>pack_sheets = Some [data_spec, summary_spec, missing_spec], page_tolerance = None\<rparr>"

definition example_pack_ties :: config where
  "example_pack_ties =
    \<lparr>pack_sheets = Some [data_spec, summary_spec, missing_spec, notes_spec],
     page_tolerance = Some 1\<rparr>"

definition example_source_without_summary :: workbook where
  "example_source_without_summary = [example_sheet, Worksheet ''Notes'']"

definition empty_pack :: config where
  "empty_pack = \<lparr>pack_sheets = Some [], page_tolerance = None\<rparr>"

text \<open>
  A file system on which every path exists and every load and save succeeds, with a
  print-area setter \<open>f\<close>.
\<close>

definition example_env ::
    "workbook \<Rightarrow> config \<Rightarrow> (string \<Rightarrow> string \<Rightarrow> string option) \<Rightarrow> env" where
  "example_env wb cfg f =
    \<lparr>path_exists = (\<lambda>p. True), load_pack_config = (\<lambda>p. Inr cfg),
     load_workbook = (\<lambda>p. Inr wb), save = (\<lambda>wb p. None), assign_print_area = f\<rparr>"

definition example_args :: args where
  "example_args =
    \<lparr>arg_source = ''golden.xlsx'', arg_output = ''golden_pack.xlsx'',
     arg_config = ''docs/IND_ACQ_PACK_EXPORT.json'', arg_json = True\<rparr>"

section \<open>Properties\<close>

subsection \<open>Print area\<close>

lemma str_int_45: "str_int 45 = ''45''"
  by (simp add: str_int_def str_nat.simps digit_char_def)

lemma str_int_100: "str_int 100 = ''100''"
  by (simp add: str_int_def str_nat.simps digit_char_def)

lemma default_tables_same_keys:
  "map fst DEFAULT_PRINT_COLUMNS = map fst DEFAULT_PRINT_ROWS"
  by (simp add: DEFAULT_PRINT_COLUMNS_def DEFAULT_PRINT_ROWS_def)

lemma unrecognized_name:
  assumes "sheet_name \<notin> set (map fst DEFAULT_PRINT_COLUMNS)"
  shows "dict_get DEFAULT_PRINT_COLUMNS sheet_name ''Z'' = ''Z''"
    and "dict_get DEFAULT_PRINT_ROWS sheet_name 100 = 100"
proof -
  from assms have "map_of DEFAULT_PRINT_COLUMNS sheet_name = None"
    by (simp add: map_of_eq_None_iff)
  then show "dict_get DEFAULT_PRINT_COLUMNS sheet_name ''Z'' = ''Z''"
    by (simp add: dict_get_def)
  from assms default_tables_same_keys have "sheet_name \<notin> set (map fst DEFAULT_PRINT_ROWS)"
    by metis
  then have "map_of DEFAULT_PRINT_ROWS sheet_name = None"
    by (simp add: map_of_eq_None_iff)
  then show "dict_get DEFAULT_PRINT_ROWS sheet_name 100 = 100"
    by (simp add: dict_get_def)
qed

text \<open>
  C2. \<open>get_print_area\<close> returns the source sheet's print area unchanged whenever one is
  declared. Otherwise it returns \<open>A1:\<close> followed by the column and the row: for a name
  in the tables the column is its entry in \<open>DEFAULT_PRINT_COLUMNS\<close> and the row its
  entry in \<open>DEFAULT_PRINT_ROWS\<close> (so \<open>Annual CF\<close> gives \<open>A1:N45\<close>), and for every name
  absent from the tables the result is \<open>A1:Z100\<close>.
\<close>

theorem get_print_area_spec:
  "(print_area sheet = Some pa \<and> pa \<noteq> [] \<longrightarrow> get_print_area sheet sheet_name = pa)
   \<and> (\<not> print_area_declared sheet \<longrightarrow>
        (\<forall>col row. map_of DEFAULT_PRINT_COLUMNS sheet_name = Some col
             \<and> map_of DEFAULT_PRINT_ROWS sheet_name = Some row
           \<longrightarrow> get_print_area sheet sheet_name = ''A1:'' @ col @ str_int row)
        \<and> (sheet_name = ''Annual CF'' \<longrightarrow> get_print_area sheet sheet_name = ''A1:N45'')
        \<and> (sheet_name \<notin> set (map fst DEFAULT_PRINT_COLUMNS)
             \<longrightarrow> get_print_area sheet sheet_name = ''A1:Z100''))"
proof (intro conjI impI allI)
  assume "print_area sheet = Some pa \<and> pa \<noteq> []"
  then show "get_print_area sheet sheet_name = pa"
    by (simp add: get_print_area_def print_area_declared_def)
next
  fix col row
  assume "\<not> print_area_declared sheet"
    and "map_of DEFAULT_PRINT_COLUMNS sheet_name = Some col
         \<and> map_of DEFAULT_PRINT_ROWS sheet_name = Some row"
  then show "get_print_area sheet sheet_name = ''A1:'' @ col @ str_int row"
    by (simp add: get_print_area_def dict_get_def)
next
  assume "\<not> print_area_declared sheet" and "sheet_name = ''Annual CF''"
  then show "get_print_area sheet sheet_name = ''A1:N45''"
    by (simp add: get_print_area_def dict_get_def DEFAULT_PRINT_COLUMNS_def
        DEFAULT_PRINT_ROWS_def str_int_45)
next
  assume "\<not> print_area_declared sheet"
    and "sheet_name \<notin> set (map fst DEFAULT_PRINT_COLUMNS)"
  then show "get_print_area sheet sheet_name = ''A1:Z100''"
    by (simp add: get_print_area_def unrecognized_name str_int_100 del: set_map)
qed

theorem get_print_area_spec_witness:
  "get_print_area ((Worksheet ''Annual CF'')\<lparr>print_area := Some ''A1:K30''\<rparr>) ''Annual CF''
     = ''A1:K30''
   \<and> get_print_area (Worksheet ''Annual CF'') ''Annual CF'' = ''A1:N45''
   \<and> get_print_area (Worksheet ''Rent Roll'') ''Rent Roll'' = ''A1:L'' @ str_int 50
   \<and> get_print_area (Worksheet ''Unknown Sheet'') ''Unknown Sheet'' = ''A1:Z100''"
proof -
  have declared: "print_area ((Worksheet ''Annual CF'')\<lparr>print_area := Some ''A1:K30''\<rparr>)
      = Some ''A1:K30'' \<and> ''A1:K30'' \<noteq> []"
    by simp
  have undeclared: "\<not> print_area_declared (Worksheet t)" for t
    by (simp add: print_area_declared_def Worksheet_def)
  have rent: "map_of DEFAULT_PRINT_COLUMNS ''Rent Roll'' = Some ''L''
      \<and> map_of DEFAULT_PRINT_ROWS ''Rent Roll'' = Some 50"
    by (simp add: DEFAULT_PRINT_COLUMNS_def DEFAULT_PRINT_ROWS_def)
  have unknown: "''Unknown Sheet'' \<notin> set (map fst DEFAULT_PRINT_COLUMNS)"
    by (simp add: DEFAULT_PRINT_COLUMNS_def)
  have 1: "get_print_area ((Worksheet ''Annual CF'')\<lparr>print_area := Some ''A1:K30''\<rparr>)
      ''Annual CF'' = ''A1:K30''"
    using get_print_area_spec [THEN conjunct1] declared by (rule mp)
  have 2: "get_print_area (Worksheet ''Annual CF'') ''Annual CF'' = ''A1:N45''"
    using get_print_area_spec [THEN conjunct2, THEN mp, OF undeclared,
        THEN conjunct2, THEN conjunct1, of "''Annual CF''" "''Annual CF''"]
    by (rule mp) (rule refl)
  have 3: "get_print_area (Worksheet ''Rent Roll'') ''Rent Roll'' = ''A1:L'' @ str_int 50"
    using get_print_area_spec [THEN conjunct2, THEN mp, OF undeclared,
        THEN conjunct1, THEN spec, THEN spec, THEN mp, OF rent, of "''Rent Roll''"]
    by simp
  have 4: "get_print_area (Worksheet ''Unknown Sheet'') ''Unknown Sheet'' = ''A1:Z100''"
    using get_print_area_spec [THEN conjunct2, THEN mp, OF undeclared,
        THEN conjunct2, THEN conjunct2, THEN mp, OF unknown] .
  from 1 2 3 4 show ?thesis by (intro conjI)
qed

subsection \<open>Page setup\<close>

lemma apply_page_setup_Inr:
  assumes "apply_page_setup d c s = Inr d'"
  shows "title d' = title d" and "cells d' = cells d" and "merged_cells d' = merged_cells d"
    and "print_area d' = print_area d"
    and "ps_orientation (page_setup d') = Some (get_orientation c)"
    and "page_margins d'
      = \<lparr>left = 0.5, right = 0.5, top_ = 0.5, bottom = 0.5, header = 0.3, footer = 0.3\<rparr>"
  using assms
  by (auto simp: apply_page_setup_def Let_def PageMargins_def split: sum.splits if_splits)

lemma apply_page_setup_returns:
  assumes "no_page_setup s" and "worksheet_bound (page_setup d)"
  shows "\<exists>d'. apply_page_setup d c s = Inr d'"
  using assms
  by (simp add: apply_page_setup_def Let_def no_page_setup_def set_fitToPage_def)

lemma apply_page_setup_raises:
  assumes "page_setup_bool (page_setup s)" and "\<not> worksheet_bound (page_setup s)"
  shows "apply_page_setup d c s = Inl (AttributeError ''sheet_properties'')"
  using assms
  by (simp add: apply_page_setup_def Let_def get_fitToPage_def)

lemma apply_page_setup_fit:
  assumes "apply_page_setup d c s = Inr d'"
  shows "page_setup_bool (page_setup s) \<longrightarrow>
      page_setup d' = (page_setup d)
        \<lparr>ps_orientation := Some (get_orientation c),
         paperSize := paperSize (page_setup s), scale := scale (page_setup s),
         fitToPage := fitToPage (page_setup s), fitToWidth := fitToWidth (page_setup s),
         fitToHeight := fitToHeight (page_setup s)\<rparr>"
    and "\<not> page_setup_bool (page_setup s) \<longrightarrow>
      page_setup d' = (page_setup d)
        \<lparr>ps_orientation := Some (get_orientation c),
         fitToPage := Some True, fitToWidth := Some 1, fitToHeight := Some 0\<rparr>"
  using assms
  by (auto simp: apply_page_setup_def Let_def get_fitToPage_def set_fitToPage_def
      split: sum.splits if_splits)

subsection \<open>The loop over the configured sheets\<close>

lemma process_sheet_name:
  assumes "process_sheet e source_wb (i, sc) st = Inr st1"
  obtains n where "name sc = Some n"
  using assms by (cases "name sc") (auto simp: process_sheet_def)

lemma process_sheet_missing:
  assumes "process_sheet e source_wb (i, sc) st = Inr st1"
    and "\<not> found_in source_wb sc"
  shows "\<exists>n. name sc = Some n \<and> st1 = st\<lparr>missing := missing st @ [n]\<rparr>"
  using assms
  by (cases "name sc") (auto simp: process_sheet_def found_in_def)

lemma process_sheet_found:
  assumes "process_sheet e source_wb (i, sc) st = Inr st1"
    and "found_in source_wb sc"
  shows "\<exists>n source_sheet wb k d1 d3.
      name sc = Some n \<and> getitem source_wb n = Inr source_sheet
      \<and> create_dest_sheet (dest_wb st) i n = Inr (wb, k)
      \<and> copy_sheet_content source_sheet (wb ! k) = Inr d1
      \<and> apply_page_setup
          (d1\<lparr>print_area := assign_print_area e (title d1) (get_print_area source_sheet n)\<rparr>)
          sc source_sheet = Inr d3
      \<and> st1 = \<lparr>dest_wb = wb[k := d3],
               copied = copied st @ [n],
               missing = missing st,
               total_expected_pages = total_expected_pages st + get_expected_pages sc\<rparr>"
  using assms
  by (cases "name sc")
    (auto simp: process_sheet_def found_in_def Let_def split: sum.splits prod.splits)

lemma names_of_Nil: "names_of [] = []"
  by (simp add: names_of_def List.map_filter_simps)

lemma names_of_Cons:
  "names_of (sc # ps) = (case name sc of None \<Rightarrow> names_of ps | Some n \<Rightarrow> n # names_of ps)"
  by (simp add: names_of_def List.map_filter_simps split: option.splits)

lemma set_names_of: "set (names_of ps) = {n. \<exists>sc \<in> set ps. name sc = Some n}"
  by (induction ps) (auto simp: names_of_Nil names_of_Cons split: option.splits)


lemma process_sheets_lists:
  assumes "for_each (process_sheet e source_wb) (enumerate i ps) st = Inr st'"
  shows "copied st' = copied st @ names_of (filter (found_in source_wb) ps)
    \<and> missing st' = missing st @ names_of (filter (\<lambda>sc. \<not> found_in source_wb sc) ps)
    \<and> total_expected_pages st' = total_expected_pages st
         + sum_list (map get_expected_pages (filter (found_in source_wb) ps))
    \<and> (\<forall>sc \<in> set ps. name sc \<noteq> None)"
  using assms
proof (induction ps arbitrary: i st)
  case Nil
  then show ?case by (simp add: names_of_Nil)
next
  case (Cons sc ps)
  from Cons.prems obtain st1 where
    step: "process_sheet e source_wb (i, sc) st = Inr st1" and
    rest: "for_each (process_sheet e source_wb) (enumerate (Suc i) ps) st1 = Inr st'"
    by (auto split: sum.splits)
  note IH = Cons.IH [OF rest]
  show ?case
  proof (cases "found_in source_wb sc")
    case True
    from process_sheet_found [OF step True] obtain n where
      "name sc = Some n" "copied st1 = copied st @ [n]" "missing st1 = missing st"
      "total_expected_pages st1 = total_expected_pages st + get_expected_pages sc"
      by auto
    with IH True show ?thesis by (simp add: names_of_Cons)
  next
    case False
    from process_sheet_missing [OF step False] obtain n where
      "name sc = Some n" "copied st1 = copied st" "missing st1 = missing st @ [n]"
      "total_expected_pages st1 = total_expected_pages st"
      by auto
    with IH False show ?thesis by (simp add: names_of_Cons)
  qed
qed

lemma create_pack_workbook_result:
  assumes "create_pack_workbook e source_path output_path cfg = Inr (res, wb)"
    and "load_workbook e source_path = Inr source_wb"
  shows "\<exists>st. for_each (process_sheet e source_wb) (enumerate 0 (sorted_pack_sheets cfg))
            \<lparr>dest_wb = Workbook, copied = [], missing = [], total_expected_pages = 0\<rparr>
          = Inr st
      \<and> wb = dest_wb st \<and> success res \<and> sheets_copied res = copied st
      \<and> sheets_missing res = missing st
      \<and> result_expected_pages res = total_expected_pages st"
  using assms
  by (auto simp: create_pack_workbook_def split: sum.splits option.splits)

lemma names_of_found:
  "set (names_of (filter (found_in source_wb) ps)) \<subseteq> set (sheetnames source_wb)"
  by (auto simp: set_names_of found_in_def split: option.splits)

lemma names_of_not_found:
  "set (names_of (filter (\<lambda>sc. \<not> found_in source_wb sc) ps)) \<inter> set (sheetnames source_wb) = {}"
  by (auto simp: set_names_of found_in_def split: option.splits)

lemma names_of_partition:
  "set (names_of (filter P ps)) \<union> set (names_of (filter (\<lambda>sc. \<not> P sc) ps)) = set (names_of ps)"
  by (auto simp: set_names_of)

lemma set_names_of_sorted:
  "set (names_of (sort_key f ps)) = set (names_of ps)"
  by (simp add: set_names_of)

text \<open>
  C7. A configured name that is no sheet of the source is recorded in \<open>sheets_missing\<close>
  and raises nothing: the loop goes on with the next entry. When \<open>create_pack_workbook\<close>
  returns, \<open>sheets_copied\<close> holds the names of all configured sheets found in the source and
  \<open>sheets_missing\<close> the names of all the others (both in processing order), so together
  they are the set of configured names, and they have no name in common.
\<close>

theorem missing_sheets_non_fatal:
  "(name sc = Some n \<and> n \<notin> set (sheetnames source_wb) \<longrightarrow>
      process_sheet e source_wb (i, sc) st = Inr (st\<lparr>missing := missing st @ [n]\<rparr>))
   \<and> (create_pack_workbook e source_path output_path cfg = Inr (res, wb)
        \<and> load_workbook e source_path = Inr source_wb \<longrightarrow>
      sheets_copied res = names_of (filter (found_in source_wb) (sorted_pack_sheets cfg))
      \<and> sheets_missing res
          = names_of (filter (\<lambda>sc. \<not> found_in source_wb sc) (sorted_pack_sheets cfg))
      \<and> set (sheets_copied res) \<union> set (sheets_missing res)
          = set (names_of (configured_sheets cfg))
      \<and> (\<forall>sc \<in> set (configured_sheets cfg). name sc \<noteq> None)
      \<and> set (sheets_copied res) \<inter> set (sheets_missing res) = {})"
proof (intro conjI impI)
  assume "name sc = Some n \<and> n \<notin> set (sheetnames source_wb)"
  then show "process_sheet e source_wb (i, sc) st = Inr (st\<lparr>missing := missing st @ [n]\<rparr>)"
    by (simp add: process_sheet_def)
next
  assume run: "create_pack_workbook e source_path output_path cfg = Inr (res, wb)
    \<and> load_workbook e source_path = Inr source_wb"
  let ?ps = "sorted_pack_sheets cfg"
  from create_pack_workbook_result [of e source_path output_path cfg res wb source_wb] run
  obtain st' where
    loop: "for_each (process_sheet e source_wb) (enumerate 0 ?ps)
            \<lparr>dest_wb = Workbook, copied = [], missing = [], total_expected_pages = 0\<rparr>
          = Inr st'"
    and res: "sheets_copied res = copied st'" "sheets_missing res = missing st'"
    by blast
  note lists = process_sheets_lists [OF loop]
  from lists res show c: "sheets_copied res = names_of (filter (found_in source_wb) ?ps)"
    by simp
  from lists res show m:
    "sheets_missing res = names_of (filter (\<lambda>sc. \<not> found_in source_wb sc) ?ps)"
    by simp
  have "set (sheets_copied res) \<union> set (sheets_missing res) = set (names_of ?ps)"
    unfolding c m by (rule names_of_partition)
  then show "set (sheets_copied res) \<union> set (sheets_missing res)
      = set (names_of (configured_sheets cfg))"
    by (simp add: sorted_pack_sheets_def set_names_of_sorted)
  from lists show "\<forall>sc \<in> set (configured_sheets cfg). name sc \<noteq> None"
    by (simp add: sorted_pack_sheets_def)
  from names_of_found [of source_wb ?ps] names_of_not_found [of source_wb ?ps]
  show "set (sheets_copied res) \<inter> set (sheets_missing res) = {}"
    unfolding c m by blast
qed

text \<open>
  C8. When \<open>create_pack_workbook\<close> returns, the key \<open>expected_pages\<close> of the result is
  the sum of the \<open>expected_pages\<close> values (1 when the key is absent) of the configured
  sheets found in the source, which are exactly the entries whose names are in
  \<open>sheets_copied\<close>; missing sheets add nothing.
\<close>

theorem expected_pages_sum:
  assumes "create_pack_workbook e source_path output_path cfg = Inr (res, wb)"
    and "load_workbook e source_path = Inr source_wb"
  shows "sheets_copied res = names_of (filter (found_in source_wb) (sorted_pack_sheets cfg))
    \<and> result_expected_pages res
        = sum_list (map get_expected_pages
            (filter (found_in source_wb) (sorted_pack_sheets cfg)))
    \<and> (expected_pages sc = None \<longrightarrow> get_expected_pages sc = 1)"
proof -
  from create_pack_workbook_result [OF assms]
  obtain st' where
    loop: "for_each (process_sheet e source_wb) (enumerate 0 (sorted_pack_sheets cfg))
            \<lparr>dest_wb = Workbook, copied = [], missing = [], total_expected_pages = 0\<rparr>
          = Inr st'"
    and res: "sheets_copied res = copied st'"
      "result_expected_pages res = total_expected_pages st'"
    by blast
  from process_sheets_lists [OF loop] res show ?thesis
    by (simp add: get_expected_pages_def)
qed

text \<open>
  C10. A result returned by \<open>create_pack_workbook\<close> has \<open>success = True\<close>, and
  \<open>main\<close> then exits with code 0, whatever \<open>sheets_copied\<close> and \<open>sheets_missing\<close>
  hold.
\<close>

theorem returned_result_exit_code:
  assumes "create_pack_workbook e (arg_source a) (arg_output a) cfg = Inr (res, wb)"
  shows "success res
    \<and> (path_exists e (arg_source a) \<and> path_exists e (arg_config a)
        \<and> load_pack_config e (arg_config a) = Inr cfg \<longrightarrow> main e a = 0)"
  using assms
  by (auto simp: create_pack_workbook_def main_def split: sum.splits option.splits)

subsection \<open>Copying the content of a sheet\<close>

lemma map_of_fold_update:
  "map_of (fold (\<lambda>a. AList.update a v) as cs) k
     = (if k \<in> set as then Some v else map_of cs k)"
  by (induction as arbitrary: cs) (auto simp: update_conv')

lemma issubset_refl: "issubset r r"
  by (cases r rule: range_cells.cases) simp

lemma merge_cells_merged_cells:
  "merged_cells (merge_cells ws rng)
     = (if \<exists>r \<in> set (merged_cells ws). issubset rng r then merged_cells ws
        else merged_cells ws @ [rng])"
  by (simp add: merge_cells_def Let_def)

lemma merge_cells_MergedCell:
  "map_of (cells (merge_cells ws rng)) a = Some MergedCell \<longleftrightarrow>
    a \<in> set (subordinate_cells rng) \<or> map_of (cells ws) a = Some MergedCell"
  by (auto simp: merge_cells_def Let_def map_of_fold_update update_conv')

text \<open>
  Merging a list of ranges one after the other: the ranges the sheet had stay, nothing
  but ranges of the list is added, every range of the list lies inside a range of the
  result, and all of them are in the result when none lies inside another range.
\<close>

lemma fold_merge_cells_keeps:
  "set (merged_cells ws) \<subseteq> set (merged_cells (fold (\<lambda>r d. merge_cells d r) rs ws))"
proof (induction rs arbitrary: ws)
  case Nil
  show ?case by simp
next
  case (Cons r rs)
  have "set (merged_cells ws) \<subseteq> set (merged_cells (merge_cells ws r))"
    by (auto simp: merge_cells_merged_cells)
  with Cons.IH [of "merge_cells ws r"] show ?case by auto
qed

lemma fold_merge_cells_adds:
  "set (merged_cells (fold (\<lambda>r d. merge_cells d r) rs ws)) \<subseteq> set (merged_cells ws) \<union> set rs"
proof (induction rs arbitrary: ws)
  case Nil
  show ?case by simp
next
  case (Cons r rs)
  have "set (merged_cells (merge_cells ws r)) \<subseteq> insert r (set (merged_cells ws))"
    by (auto simp: merge_cells_merged_cells)
  with Cons.IH [of "merge_cells ws r"] show ?case by auto
qed

lemma fold_merge_cells_covers:
  assumes "r \<in> set rs"
  shows "\<exists>r' \<in> set (merged_cells (fold (\<lambda>r d. merge_cells d r) rs ws)). issubset r r'"
  using assms
proof (induction rs arbitrary: ws)
  case Nil
  then show ?case by simp
next
  case (Cons x rs)
  show ?case
  proof (cases "r \<in> set rs")
    case True
    from Cons.IH [OF True] show ?thesis by simp
  next
    case False
    with Cons.prems have rx: "r = x" by simp
    have "\<exists>r' \<in> set (merged_cells (merge_cells ws x)). issubset x r'"
      by (auto simp: merge_cells_merged_cells issubset_refl)
    then obtain r' where "r' \<in> set (merged_cells (merge_cells ws x))" "issubset x r'"
      by blast
    with fold_merge_cells_keeps [of "merge_cells ws x" rs] rx show ?thesis by auto
  qed
qed

lemma fold_merge_cells_non_nested:
  assumes "\<forall>r \<in> set rs. \<forall>r' \<in> set (merged_cells ws) \<union> set rs. issubset r r' \<longrightarrow> r = r'"
  shows "set (merged_cells (fold (\<lambda>r d. merge_cells d r) rs ws)) = set (merged_cells ws) \<union> set rs"
  using assms
proof (induction rs arbitrary: ws)
  case Nil
  show ?case by simp
next
  case (Cons x rs)
  have step: "set (merged_cells (merge_cells ws x)) = insert x (set (merged_cells ws))"
  proof (cases "\<exists>r \<in> set (merged_cells ws). issubset x r")
    case True
    then obtain r where "r \<in> set (merged_cells ws)" "issubset x r" by blast
    with Cons.prems have "x \<in> set (merged_cells ws)" by auto
    with True show ?thesis by (auto simp: merge_cells_merged_cells)
  next
    case False
    then show ?thesis by (simp add: merge_cells_merged_cells)
  qed
  have "\<forall>r \<in> set rs. \<forall>r' \<in> set (merged_cells (merge_cells ws x)) \<union> set rs.
      issubset r r' \<longrightarrow> r = r'"
    using Cons.prems unfolding step by auto
  from Cons.IH [OF this] step show ?case by auto
qed

lemma fold_merge_cells_MergedCell:
  "map_of (cells (fold (\<lambda>r d. merge_cells d r) rs ws)) a = Some MergedCell \<longleftrightarrow>
    (\<exists>r \<in> set rs. a \<in> set (subordinate_cells r)) \<or> map_of (cells ws) a = Some MergedCell"
  by (induction rs arbitrary: ws) (auto simp: merge_cells_MergedCell)

lemma fold_merge_cells_title:
  "title (fold (\<lambda>r d. merge_cells d r) rs ws) = title ws"
  "page_setup (fold (\<lambda>r d. merge_cells d r) rs ws) = page_setup ws"
  by (induction rs arbitrary: ws) (auto simp: merge_cells_def Let_def)

lemma get_cell_MergedCell:
  "get_cell ws a = MergedCell \<longleftrightarrow> map_of (cells ws) a = Some MergedCell"
  by (simp add: get_cell_def split: option.splits)

lemma value_at_MergedCell: "get_cell ws a = MergedCell \<Longrightarrow> value_at ws a = NoValue"
  by (simp add: value_at_def)

lemma copy_cell_write:
  assumes "copy_cell source_sheet a d = Inr d'" and "get_cell source_sheet a = Cell v st"
  shows "\<exists>st'. cells d' = AList.update a (Cell v st') (cells d) \<and> (st \<noteq> None \<longrightarrow> st' = st)"
  using assms by (auto simp: copy_cell_def split: cell.splits)

lemma copy_cell_succeeds:
  assumes "get_cell source_sheet a \<noteq> MergedCell \<longrightarrow> get_cell d a \<noteq> MergedCell"
  shows "\<exists>d'. copy_cell source_sheet a d = Inr d'"
  using assms by (auto simp: copy_cell_def split: cell.splits)

lemma copy_cell_other:
  assumes "copy_cell source_sheet x d = Inr d'"
    and "a \<noteq> x \<or> get_cell source_sheet a = MergedCell"
  shows "map_of (cells d') a = map_of (cells d) a"
  using assms by (auto simp: copy_cell_def update_conv' split: cell.splits)

lemma copy_cell_keeps_MergedCell:
  assumes "copy_cell source_sheet x d = Inr d'"
  shows "get_cell d' a = MergedCell \<longleftrightarrow> get_cell d a = MergedCell"
  using assms
  by (auto simp: copy_cell_def get_cell_def update_conv'
      split: cell.splits if_splits option.splits)

lemma copy_cell_keeps:
  assumes "copy_cell source_sheet x d = Inr d'"
  shows "merged_cells d' = merged_cells d" and "title d' = title d"
    and "page_setup d' = page_setup d"
  using assms by (auto simp: copy_cell_def split: cell.splits)

lemma cell_loop_page_setup:
  "for_each (copy_cell source_sheet) as d = Inr d' \<Longrightarrow> page_setup d' = page_setup d"
proof (induction as arbitrary: d)
  case Nil
  then show ?case by simp
next
  case (Cons x as)
  then obtain d1 where step: "copy_cell source_sheet x d = Inr d1"
    and rest: "for_each (copy_cell source_sheet) as d1 = Inr d'"
    by (auto split: sum.splits)
  from Cons.IH [OF rest] copy_cell_keeps(3) [OF step] show ?case by simp
qed

text \<open>
  The cell loop: the merged ranges, the title and the positions of the \<open>MergedCell\<close>s
  of the destination stay; an address that is not visited, or whose source cell is a
  \<open>MergedCell\<close>, keeps its cell; a visited address with an ordinary source cell holds the
  value of that cell afterwards.
\<close>

lemma cell_loop:
  assumes "for_each (copy_cell source_sheet) as d = Inr d'"
  shows "merged_cells d' = merged_cells d"
    and "title d' = title d"
    and "get_cell d' a = MergedCell \<longleftrightarrow> get_cell d a = MergedCell"
    and "a \<notin> set as \<or> get_cell source_sheet a = MergedCell
          \<Longrightarrow> map_of (cells d') a = map_of (cells d) a"
    and "a \<in> set as \<Longrightarrow> get_cell source_sheet a = Cell v st
          \<Longrightarrow> \<exists>st'. map_of (cells d') a = Some (Cell v st') \<and> (st \<noteq> None \<longrightarrow> st' = st)"
  using assms
proof (induction as arbitrary: d)
  case Nil
  {
    case 1 then show ?case by simp
  next
    case 2 then show ?case by simp
  next
    case 3 then show ?case by simp
  next
    case 4 then show ?case by simp
  next
    case 5 then show ?case by simp
  }
next
  case (Cons x as)
  {
    case 1
    then obtain d1 where step: "copy_cell source_sheet x d = Inr d1"
      and rest: "for_each (copy_cell source_sheet) as d1 = Inr d'"
      by (auto split: sum.splits)
    from Cons.IH(1) [OF rest] copy_cell_keeps(1) [OF step] show ?case by simp
  next
    case 2
    then obtain d1 where step: "copy_cell source_sheet x d = Inr d1"
      and rest: "for_each (copy_cell source_sheet) as d1 = Inr d'"
      by (auto split: sum.splits)
    from Cons.IH(2) [OF rest] copy_cell_keeps(2) [OF step] show ?case by simp
  next
    case 3
    then obtain d1 where step: "copy_cell source_sheet x d = Inr d1"
      and rest: "for_each (copy_cell source_sheet) as d1 = Inr d'"
      by (auto split: sum.splits)
    from Cons.IH(3) [OF rest] copy_cell_keeps_MergedCell [OF step] show ?case by simp
  next
    case 4
    from 4(2) obtain d1 where step: "copy_cell source_sheet x d = Inr d1"
      and rest: "for_each (copy_cell source_sheet) as d1 = Inr d'"
      by (auto split: sum.splits)
    from 4(1) have "a \<notin> set as \<or> get_cell source_sheet a = MergedCell"
      and "a \<noteq> x \<or> get_cell source_sheet a = MergedCell"
      by auto
    with Cons.IH(4) [OF _ rest] copy_cell_other [OF step] show ?case by simp
  next
    case 5
    from 5(3) obtain d1 where step: "copy_cell source_sheet x d = Inr d1"
      and rest: "for_each (copy_cell source_sheet) as d1 = Inr d'"
      by (auto split: sum.splits)
    show ?case
    proof (cases "a \<in> set as")
      case True
      from Cons.IH(5) [OF True 5(2) rest] show ?thesis .
    next
      case False
      with 5(1) have ax: "a = x" by simp
      from copy_cell_write [OF step 5(2) [unfolded ax]] obtain st' where
        "cells d1 = AList.update x (Cell v st') (cells d)" "st \<noteq> None \<longrightarrow> st' = st"
        by blast
      then have "map_of (cells d1) a = Some (Cell v st') \<and> (st \<noteq> None \<longrightarrow> st' = st)"
        by (simp add: ax update_conv')
      moreover from Cons.IH(4) [OF _ rest] False
      have "map_of (cells d') a = map_of (cells d1) a" by simp
      ultimately show ?thesis by auto
    qed
  }
qed

lemma cell_loop_succeeds:
  assumes "\<forall>a \<in> set as. get_cell source_sheet a \<noteq> MergedCell \<longrightarrow> get_cell d a \<noteq> MergedCell"
  shows "\<exists>d'. for_each (copy_cell source_sheet) as d = Inr d'"
  using assms
proof (induction as arbitrary: d)
  case Nil
  then show ?case by simp
next
  case (Cons x as)
  from Cons.prems copy_cell_succeeds [where a = x and d = d and source_sheet = source_sheet]
  obtain d1 where step: "copy_cell source_sheet x d = Inr d1" by auto
  have "\<forall>a \<in> set as. get_cell source_sheet a \<noteq> MergedCell \<longrightarrow> get_cell d1 a \<noteq> MergedCell"
    using Cons.prems copy_cell_keeps_MergedCell [OF step] by simp
  from Cons.IH [OF this] step show ?case by simp
qed

text \<open>Every stored cell with a row and a column from 1 on is visited by \<open>iter_rows\<close>.\<close>

lemma fold_max_lower: "(m::nat) \<le> fold max xs m"
proof (induction xs arbitrary: m)
  case Nil
  show ?case by simp
next
  case (Cons x xs)
  have "m \<le> max x m" by simp
  also have "max x m \<le> fold max xs (max x m)" by (rule Cons.IH)
  finally show ?case by simp
qed

lemma fold_max_ge: "x \<in> set xs \<Longrightarrow> x \<le> fold max xs (m::nat)"
proof (induction xs arbitrary: m)
  case Nil
  then show ?case by simp
next
  case (Cons y xs)
  show ?case
  proof (cases "x = y")
    case True
    have "x \<le> max y m" using True by simp
    also have "max y m \<le> fold max xs (max y m)" by (rule fold_max_lower)
    finally show ?thesis by simp
  next
    case False
    with Cons.prems have "x \<in> set xs" by simp
    from Cons.IH [OF this] show ?thesis by simp
  qed
qed

lemma in_range_cells:
  "(r, c) \<in> set (range_cells ((r1, c1), (r2, c2))) \<longleftrightarrow> r1 \<le> r \<and> r \<le> r2 \<and> c1 \<le> c \<and> c \<le> c2"
  by (auto simp del: upt_Suc simp: image_iff)

lemma stored_in_iter_rows:
  assumes "map_of (cells ws) a = Some x" and "1 \<le> fst a" and "1 \<le> snd a"
  shows "a \<in> set (iter_rows ws)"
proof -
  from assms(1) have mem: "(a, x) \<in> set (cells ws)" by (rule map_of_SomeD)
  then have ne: "cells ws \<noteq> []" by auto
  from mem have "fst a \<in> set (map (\<lambda>(a, c). fst a) (cells ws))"
    and "snd a \<in> set (map (\<lambda>(a, c). snd a) (cells ws))"
    by force+
  then have "fst a \<le> max_row ws" and "snd a \<le> max_column ws"
    unfolding max_row_def max_column_def by (simp_all only: fold_max_ge)
  with assms(2,3) ne show ?thesis
    unfolding iter_rows_def by (cases a) (simp only: in_range_cells if_False, simp)
qed

lemma fold_copy_column_dimension:
  "cells (fold copy_column_dimension xs d) = cells d"
  "merged_cells (fold copy_column_dimension xs d) = merged_cells d"
  "title (fold copy_column_dimension xs d) = title d"
  "page_setup (fold copy_column_dimension xs d) = page_setup d"
  by (induction xs arbitrary: d) (auto simp: copy_column_dimension_def)

lemma fold_copy_row_dimension:
  "cells (fold copy_row_dimension xs d) = cells d"
  "merged_cells (fold copy_row_dimension xs d) = merged_cells d"
  "title (fold copy_row_dimension xs d) = title d"
  "page_setup (fold copy_row_dimension xs d) = page_setup d"
  by (induction xs arbitrary: d) (auto simp: copy_row_dimension_def)

lemma copy_sheet_content_phases:
  assumes "copy_sheet_content source_sheet dest_sheet = Inr dest'"
  obtains d2 where
    "for_each (copy_cell source_sheet) (iter_rows source_sheet)
       (fold (\<lambda>r d. merge_cells d r) (merged_cells source_sheet) dest_sheet) = Inr d2"
    and "cells dest' = cells d2" and "merged_cells dest' = merged_cells d2"
    and "title dest' = title d2" and "page_setup dest' = page_setup d2"
  using assms
  by (auto simp: copy_sheet_content_def Let_def fold_copy_column_dimension
      fold_copy_row_dimension split: sum.splits)

lemma copy_sheet_content_title:
  assumes "copy_sheet_content source_sheet dest_sheet = Inr d"
  shows "title d = title dest_sheet"
proof -
  from copy_sheet_content_phases [OF assms] obtain d2 where
    "for_each (copy_cell source_sheet) (iter_rows source_sheet)
       (fold (\<lambda>r d. merge_cells d r) (merged_cells source_sheet) dest_sheet) = Inr d2"
    and "title d = title d2"
    by blast
  with cell_loop(2) show ?thesis by (simp add: fold_merge_cells_title)
qed

lemma copy_sheet_content_page_setup:
  assumes "copy_sheet_content source_sheet dest_sheet = Inr d"
  shows "page_setup d = page_setup dest_sheet"
proof -
  from copy_sheet_content_phases [OF assms] obtain d2 where
    "for_each (copy_cell source_sheet) (iter_rows source_sheet)
       (fold (\<lambda>r d. merge_cells d r) (merged_cells source_sheet) dest_sheet) = Inr d2"
    and "page_setup d = page_setup d2"
    by blast
  with cell_loop_page_setup show ?thesis by (simp add: fold_merge_cells_title)
qed

lemma copy_sheet_content_returns:
  assumes "well_formed_sheet source_sheet"
    and "MergedCell \<notin> snd ` set (cells dest_sheet)"
  shows "\<exists>d. copy_sheet_content source_sheet dest_sheet = Inr d"
proof -
  let ?d1 = "fold (\<lambda>r d. merge_cells d r) (merged_cells source_sheet) dest_sheet"
  have fresh: "map_of (cells dest_sheet) a \<noteq> Some MergedCell" for a
  proof
    assume "map_of (cells dest_sheet) a = Some MergedCell"
    then have "(a, MergedCell) \<in> set (cells dest_sheet)" by (rule map_of_SomeD)
    with assms(2) show False by force
  qed
  have "\<forall>a \<in> set (iter_rows source_sheet).
      get_cell source_sheet a \<noteq> MergedCell \<longrightarrow> get_cell ?d1 a \<noteq> MergedCell"
    using assms(1) fresh
    unfolding well_formed_sheet_def get_cell_MergedCell fold_merge_cells_MergedCell by blast
  from cell_loop_succeeds [OF this] obtain d2 where
    "for_each (copy_cell source_sheet) (iter_rows source_sheet) ?d1 = Inr d2" by blast
  then show ?thesis
    by (simp add: copy_sheet_content_def Let_def)
qed

text \<open>
  C9. When \<open>copy_sheet_content\<close> returns, every merged range of the source is merged
  again in the destination: the destination keeps its own ranges and gets ranges of the
  source only, every range of the source lies inside a merged range of the destination,
  and all ranges of the source are ranges of the destination when no range lies inside
  another (a range inside one merged before it is not recorded by the library). Every
  subordinate cell of a merged range of the source is a \<open>MergedCell\<close> of the destination
  and so carries no value; and every cell of the source that is not a \<open>MergedCell\<close> has
  its raw value, formula text included, at the same address of the destination. The
  function does return for every source sheet whose merged ranges have \<open>MergedCell\<close>s at
  their subordinate addresses (as every sheet of the library has) and every destination
  without \<open>MergedCell\<close>s (as a new sheet is).
\<close>

theorem copy_sheet_content_spec:
  "(copy_sheet_content source_sheet dest_sheet = Inr dest' \<longrightarrow>
      set (merged_cells dest_sheet) \<subseteq> set (merged_cells dest')
      \<and> set (merged_cells dest')
          \<subseteq> set (merged_cells dest_sheet) \<union> set (merged_cells source_sheet)
      \<and> (\<forall>r \<in> set (merged_cells source_sheet).
            \<exists>r' \<in> set (merged_cells dest'). issubset r r')
      \<and> (non_nested (merged_cells dest_sheet @ merged_cells source_sheet) \<longrightarrow>
            set (merged_cells dest')
              = set (merged_cells dest_sheet) \<union> set (merged_cells source_sheet))
      \<and> (\<forall>rng \<in> set (merged_cells source_sheet). \<forall>a \<in> set (subordinate_cells rng).
            get_cell dest' a = MergedCell \<and> value_at dest' a = NoValue)
      \<and> (\<forall>a \<in> set (iter_rows source_sheet).
            get_cell source_sheet a \<noteq> MergedCell \<longrightarrow>
            value_at dest' a = value_at source_sheet a)
      \<and> (\<forall>a v st. map_of (cells source_sheet) a = Some (Cell v st) \<and> 1 \<le> fst a \<and> 1 \<le> snd a
            \<longrightarrow> value_at dest' a = v))
   \<and> (well_formed_sheet source_sheet \<and> MergedCell \<notin> snd ` set (cells dest_sheet) \<longrightarrow>
       (\<exists>d. copy_sheet_content source_sheet dest_sheet = Inr d))"
proof (intro conjI impI)
  let ?d1 = "fold (\<lambda>r d. merge_cells d r) (merged_cells source_sheet) dest_sheet"
  assume run: "copy_sheet_content source_sheet dest_sheet = Inr dest'"
  from copy_sheet_content_phases [OF run] obtain d2 where
    loop: "for_each (copy_cell source_sheet) (iter_rows source_sheet) ?d1 = Inr d2"
    and same: "cells dest' = cells d2" "merged_cells dest' = merged_cells d2"
    by blast
  have gc: "get_cell dest' a = get_cell d2 a" for a
    by (simp add: get_cell_def same)
  from cell_loop(1) [OF loop] same
  have m: "merged_cells dest' = merged_cells ?d1" by simp
  show "set (merged_cells dest_sheet) \<subseteq> set (merged_cells dest')"
    unfolding m by (rule fold_merge_cells_keeps)
  show "set (merged_cells dest')
      \<subseteq> set (merged_cells dest_sheet) \<union> set (merged_cells source_sheet)"
    unfolding m by (rule fold_merge_cells_adds)
  show "\<forall>r \<in> set (merged_cells source_sheet).
      \<exists>r' \<in> set (merged_cells dest'). issubset r r'"
    unfolding m by (intro ballI) (rule fold_merge_cells_covers)
  show "set (merged_cells dest')
      = set (merged_cells dest_sheet) \<union> set (merged_cells source_sheet)"
    if "non_nested (merged_cells dest_sheet @ merged_cells source_sheet)"
    unfolding m
    by (rule fold_merge_cells_non_nested) (use that in \<open>auto simp: non_nested_def\<close>)
  show "\<forall>rng \<in> set (merged_cells source_sheet). \<forall>a \<in> set (subordinate_cells rng).
      get_cell dest' a = MergedCell \<and> value_at dest' a = NoValue"
  proof (intro ballI)
    fix rng a
    assume "rng \<in> set (merged_cells source_sheet)" and "a \<in> set (subordinate_cells rng)"
    then have "get_cell ?d1 a = MergedCell"
      unfolding get_cell_MergedCell fold_merge_cells_MergedCell by blast
    with cell_loop(3) [OF loop] have "get_cell dest' a = MergedCell"
      by (simp add: gc)
    then show "get_cell dest' a = MergedCell \<and> value_at dest' a = NoValue"
      by (simp add: value_at_MergedCell)
  qed
  show copied: "\<forall>a \<in> set (iter_rows source_sheet).
      get_cell source_sheet a \<noteq> MergedCell \<longrightarrow> value_at dest' a = value_at source_sheet a"
  proof (intro ballI impI)
    fix a
    assume a: "a \<in> set (iter_rows source_sheet)"
      and "get_cell source_sheet a \<noteq> MergedCell"
    then obtain v st where src: "get_cell source_sheet a = Cell v st"
      by (cases "get_cell source_sheet a") auto
    from cell_loop(5) [OF loop a src] obtain st' where
      "map_of (cells d2) a = Some (Cell v st')" by blast
    with src same show "value_at dest' a = value_at source_sheet a"
      by (simp add: value_at_def get_cell_def)
  qed
  show "\<forall>a v st. map_of (cells source_sheet) a = Some (Cell v st) \<and> 1 \<le> fst a \<and> 1 \<le> snd a
      \<longrightarrow> value_at dest' a = v"
  proof (intro allI impI)
    fix a v st
    assume h: "map_of (cells source_sheet) a = Some (Cell v st) \<and> 1 \<le> fst a \<and> 1 \<le> snd a"
    then have "a \<in> set (iter_rows source_sheet)"
      by (simp add: stored_in_iter_rows)
    moreover from h have "get_cell source_sheet a = Cell v st"
      by (simp add: get_cell_def)
    ultimately show "value_at dest' a = v"
      using copied by (simp add: value_at_def)
  qed
next
  assume "well_formed_sheet source_sheet \<and> MergedCell \<notin> snd ` set (cells dest_sheet)"
  then show "\<exists>d. copy_sheet_content source_sheet dest_sheet = Inr d"
    by (simp add: copy_sheet_content_returns)
qed

lemma example_sheet_eval:
  "merged_cells example_sheet = [((2, 1), (3, 2))]"
  "subordinate_cells ((2, 1), (3, 2)) = [(2, 2), (3, 1), (3, 2)]"
  "cells example_sheet =
     [((1, 1), Cell (Number 42) None), ((1, 2), Cell (Text ''=A1*2'') None),
      ((2, 1), Cell (Text ''Total'') None), ((2, 2), MergedCell), ((3, 1), MergedCell),
      ((3, 2), MergedCell)]"
  "title example_sheet = ''Data''"
  "page_setup example_sheet = PrintPageSetup"
proof -
  have s: "subordinate_cells ((2, Suc 0), (3, 2)) = [(2, 2), (3, Suc 0), (3, 2)]"
    by (simp add: subordinate_cells_def upt_rec)
  then show "subordinate_cells ((2, 1), (3, 2)) = [(2, 2), (3, 1), (3, 2)]"
    by simp
  show "merged_cells example_sheet = [((2, 1), (3, 2))]"
    by (simp add: example_sheet_def merge_cells_def Worksheet_def Let_def)
  show "cells example_sheet =
     [((1, 1), Cell (Number 42) None), ((1, 2), Cell (Text ''=A1*2'') None),
      ((2, 1), Cell (Text ''Total'') None), ((2, 2), MergedCell), ((3, 1), MergedCell),
      ((3, 2), MergedCell)]"
    by (simp add: example_sheet_def merge_cells_def Worksheet_def Let_def s)
  show "title example_sheet = ''Data''"
    by (simp add: example_sheet_def merge_cells_def Worksheet_def Let_def)
  show "page_setup example_sheet = PrintPageSetup"
    by (simp add: example_sheet_def merge_cells_def Worksheet_def Let_def)
qed

lemma example_sheet_well_formed: "well_formed_sheet example_sheet"
proof -
  have "\<forall>a \<in> set [(2, 2), (3, 1), (3, 2)]. get_cell example_sheet a = MergedCell"
    by (simp add: get_cell_def example_sheet_eval(3))
  then have "\<forall>a \<in> set (subordinate_cells ((2, 1), (3, 2))).
      get_cell example_sheet a = MergedCell"
    by (simp only: example_sheet_eval(2))
  then show ?thesis
    unfolding well_formed_sheet_def
    by (simp only: example_sheet_eval(1) list.set ball_simps)
qed

theorem copy_sheet_content_spec_witness:
  "\<exists>d. copy_sheet_content example_sheet (Worksheet ''Data'') = Inr d
     \<and> set (merged_cells d) = {((2, 1), (3, 2))}
     \<and> value_at d (1, 1) = Number 42
     \<and> value_at d (1, 2) = Text ''=A1*2''
     \<and> value_at d (2, 1) = Text ''Total''
     \<and> get_cell d (2, 2) = MergedCell \<and> value_at d (2, 2) = NoValue
     \<and> get_cell d (3, 1) = MergedCell \<and> value_at d (3, 1) = NoValue
     \<and> get_cell d (3, 2) = MergedCell \<and> value_at d (3, 2) = NoValue"
proof -
  have wf: "well_formed_sheet example_sheet
      \<and> MergedCell \<notin> snd ` set (cells (Worksheet ''Data''))"
    by (simp add: example_sheet_well_formed) (simp add: Worksheet_def)
  from copy_sheet_content_spec [THEN conjunct2, THEN mp, OF wf]
  obtain d where run: "copy_sheet_content example_sheet (Worksheet ''Data'') = Inr d"
    by blast
  note props = copy_sheet_content_spec [THEN conjunct1, THEN mp, OF run]
  have nn: "non_nested (merged_cells (Worksheet ''Data'') @ merged_cells example_sheet)"
    by (simp add: non_nested_def example_sheet_eval(1) Worksheet_def)
  from props nn have "set (merged_cells d)
      = set (merged_cells (Worksheet ''Data'')) \<union> set (merged_cells example_sheet)"
    by blast
  then have m: "set (merged_cells d) = {((2, 1), (3, 2))}"
    by (simp add: example_sheet_eval(1) Worksheet_def)
  from props have "\<forall>a \<in> set (subordinate_cells ((2, 1), (3, 2))).
      get_cell d a = MergedCell \<and> value_at d a = NoValue"
    by (simp only: example_sheet_eval(1)) simp
  then have sub: "\<forall>a \<in> set [(2, 2), (3, 1), (3, 2)].
      get_cell d a = MergedCell \<and> value_at d a = NoValue"
    by (simp only: example_sheet_eval(2))
  from props have vals:
    "\<And>a v st. map_of (cells example_sheet) a = Some (Cell v st) \<and> 1 \<le> fst a \<and> 1 \<le> snd a
      \<Longrightarrow> value_at d a = v"
    by blast
  have "value_at d (1, 1) = Number 42"
    by (rule vals [where st = None]) (simp add: example_sheet_eval)
  moreover have "value_at d (1, 2) = Text ''=A1*2''"
    by (rule vals [where st = None]) (simp add: example_sheet_eval)
  moreover have "value_at d (2, 1) = Text ''Total''"
    by (rule vals [where st = None]) (simp add: example_sheet_eval)
  ultimately show ?thesis
    using run m sub by simp
qed

lemma nested_sheet_eval:
  "merged_cells nested_sheet = [((1, 1), (2, 2)), ((1, 1), (1, 2))]"
  "title nested_sheet = ''Nested''"
  by (simp_all add: nested_sheet_def merge_cells_def Worksheet_def Let_def)

lemma nested_sheet_well_formed: "well_formed_sheet nested_sheet"
proof -
  have sub: "set (subordinate_cells ((1, 1), (1, 2))) \<subseteq> set (subordinate_cells ((1, 1), (2, 2)))"
    by (simp add: subordinate_cells_def upt_rec)
  have "get_cell nested_sheet a = MergedCell"
    if "a \<in> set (subordinate_cells ((1, 1), (2, 2)))" for a
    using that
    by (simp add: get_cell_MergedCell nested_sheet_def merge_cells_MergedCell)
  with sub show ?thesis
    unfolding well_formed_sheet_def nested_sheet_eval(1) by auto
qed

text \<open>
  The sheet \<open>nested_sheet\<close> has the merged ranges A1:B2 and A1:B1; after
  \<open>copy_sheet_content\<close> into a new sheet the destination has the merged range A1:B2
  only.
\<close>

theorem nested_range_not_recreated:
  "((1, 1), (1, 2)) \<in> set (merged_cells nested_sheet)
   \<and> map_sum id merged_cells (copy_sheet_content nested_sheet (Worksheet ''Nested''))
       = Inr [((1, 1), (2, 2))]"
proof
  show "((1, 1), (1, 2)) \<in> set (merged_cells nested_sheet)"
    by (simp add: nested_sheet_eval)
  have "MergedCell \<notin> snd ` set (cells (Worksheet ''Nested''))"
    by (simp add: Worksheet_def)
  from copy_sheet_content_returns [OF nested_sheet_well_formed this] obtain d where
    run: "copy_sheet_content nested_sheet (Worksheet ''Nested'') = Inr d"
    by blast
  from copy_sheet_content_phases [OF run] obtain d2 where
    loop: "for_each (copy_cell nested_sheet) (iter_rows nested_sheet)
       (fold (\<lambda>r d. merge_cells d r) (merged_cells nested_sheet) (Worksheet ''Nested''))
       = Inr d2"
    and "merged_cells d = merged_cells d2"
    by blast
  with cell_loop(1) [OF loop]
  have "merged_cells d = merged_cells
      (fold (\<lambda>r d. merge_cells d r) (merged_cells nested_sheet) (Worksheet ''Nested''))"
    by simp
  also have "\<dots> = [((1, 1), (2, 2))]"
    by (simp add: nested_sheet_eval merge_cells_merged_cells) (simp add: Worksheet_def)
  finally show "map_sum id merged_cells (copy_sheet_content nested_sheet (Worksheet ''Nested''))
      = Inr [((1, 1), (2, 2))]"
    by (simp add: run)
qed

subsection \<open>Runs that return\<close>

lemma getitem_found:
  assumes "n \<in> set (sheetnames wb)"
  shows "\<exists>s. getitem wb n = Inr s \<and> s \<in> set wb \<and> title s = n"
proof -
  from assms obtain s where "find (\<lambda>sheet. title sheet = n) wb = Some s"
    by (cases "find (\<lambda>sheet. title sheet = n) wb")
      (auto simp: find_None_iff sheetnames_def)
  moreover from this have "s \<in> set wb \<and> title s = n"
    by (auto simp: find_Some_iff)
  ultimately show ?thesis by (simp add: getitem_def)
qed

lemma set_title_returns:
  assumes "valid_title v"
  shows "\<exists>t. set_title names old v = Inr t"
  using assms by (simp add: set_title_def valid_title_def)

lemma valid_title_Sheet: "valid_title ''Sheet''"
  by (simp add: valid_title_def INVALID_TITLE_CHARS_def)

text \<open>
  The destination sheet of an entry is a sheet without \<open>MergedCell\<close>s whose page setup
  is bound to it: the default sheet of the new workbook or a sheet just created.
\<close>

lemma create_dest_sheet_returns:
  assumes "valid_title n"
    and "i = 0 \<longrightarrow> wb \<noteq> [] \<and> MergedCell \<notin> snd ` set (cells (wb ! 0))
      \<and> worksheet_bound (page_setup (wb ! 0))"
  shows "\<exists>wb' k. create_dest_sheet wb i n = Inr (wb', k) \<and> k < length wb'
    \<and> MergedCell \<notin> snd ` set (cells (wb' ! k))
    \<and> worksheet_bound (page_setup (wb' ! k))"
proof (cases "i = 0")
  case True
  from set_title_returns [OF assms(1)] obtain t where
    "set_title (sheetnames wb) (title (wb ! 0)) n = Inr t" by blast
  with True assms(2) show ?thesis
    by (simp add: create_dest_sheet_def)
next
  case False
  have "valid_title (if n = [] then ''Sheet'' else n)"
    using assms(1) valid_title_Sheet by simp
  from set_title_returns [OF this] obtain t where
    "set_title (sheetnames wb) [] (if n = [] then ''Sheet'' else n) = Inr t" by blast
  with False show ?thesis
    by (simp add: create_dest_sheet_def create_sheet_def Worksheet_def PrintPageSetup_def
        nth_append)
qed

lemma process_sheet_returns:
  assumes "name sc \<noteq> None"
    and "\<forall>s \<in> set source_wb. well_formed_sheet s \<and> valid_title (title s) \<and> no_page_setup s"
    and "i = 0 \<longrightarrow> dest_wb st \<noteq> [] \<and> MergedCell \<notin> snd ` set (cells (dest_wb st ! 0))
      \<and> worksheet_bound (page_setup (dest_wb st ! 0))"
  shows "\<exists>st1. process_sheet e source_wb (i, sc) st = Inr st1"
proof -
  from assms(1) obtain n where n: "name sc = Some n" by auto
  show ?thesis
  proof (cases "n \<in> set (sheetnames source_wb)")
    case False
    with n show ?thesis by (simp add: process_sheet_def)
  next
    case True
    from getitem_found [OF True] obtain s where
      s: "getitem source_wb n = Inr s" "s \<in> set source_wb" "title s = n" by blast
    with assms(2) have wf: "well_formed_sheet s" and "valid_title n"
      and nps: "no_page_setup s" by auto
    from create_dest_sheet_returns [OF this(2) assms(3)] obtain wb k where
      c: "create_dest_sheet (dest_wb st) i n = Inr (wb, k)"
        "MergedCell \<notin> snd ` set (cells (wb ! k))"
        "worksheet_bound (page_setup (wb ! k))" by blast
    from copy_sheet_content_returns [OF wf c(2)] obtain d where
      d: "copy_sheet_content s (wb ! k) = Inr d" by blast
    let ?d2 = "d\<lparr>print_area := assign_print_area e (title d) (get_print_area s n)\<rparr>"
    from copy_sheet_content_page_setup [OF d] c(3)
    have "worksheet_bound (page_setup ?d2)" by simp
    from apply_page_setup_returns [OF nps this] obtain d3 where
      "apply_page_setup ?d2 sc s = Inr d3" by blast
    with n True s(1) c(1) d show ?thesis
      by (simp add: process_sheet_def Let_def)
  qed
qed

lemma process_sheets_return:
  assumes "\<forall>sc \<in> set ps. name sc \<noteq> None"
    and "\<forall>s \<in> set source_wb. well_formed_sheet s \<and> valid_title (title s) \<and> no_page_setup s"
    and "i = 0 \<longrightarrow> dest_wb st \<noteq> [] \<and> MergedCell \<notin> snd ` set (cells (dest_wb st ! 0))
      \<and> worksheet_bound (page_setup (dest_wb st ! 0))"
  shows "\<exists>st'. for_each (process_sheet e source_wb) (enumerate i ps) st = Inr st'"
  using assms
proof (induction ps arbitrary: i st)
  case Nil
  show ?case by simp
next
  case (Cons sc ps)
  from process_sheet_returns [of sc source_wb i st e] Cons.prems
  obtain st1 where step: "process_sheet e source_wb (i, sc) st = Inr st1" by auto
  from Cons.IH [of "Suc i" st1] Cons.prems
  obtain st' where "for_each (process_sheet e source_wb) (enumerate (Suc i) ps) st1 = Inr st'"
    by auto
  with step show ?case by simp
qed

text \<open>
  \<open>create_pack_workbook\<close> returns a result whenever the source workbook loads, every
  configured sheet has a name, the sheets of the source are as the library makes them and
  have no page setup of their own, and saving succeeds.
\<close>

lemma create_pack_workbook_returns:
  assumes "load_workbook e source_path = Inr source_wb"
    and "\<forall>wb. save e wb output_path = None"
    and "\<forall>sc \<in> set (configured_sheets cfg). name sc \<noteq> None"
    and "\<forall>s \<in> set source_wb. well_formed_sheet s \<and> valid_title (title s) \<and> no_page_setup s"
  shows "\<exists>res wb. create_pack_workbook e source_path output_path cfg = Inr (res, wb)"
proof -
  have "\<forall>sc \<in> set (sorted_pack_sheets cfg). name sc \<noteq> None"
    using assms(3) by (simp add: sorted_pack_sheets_def)
  from process_sheets_return [OF this assms(4), of 0
      "\<lparr>dest_wb = Workbook, copied = [], missing = [], total_expected_pages = 0\<rparr>" e]
  obtain st' where
    "for_each (process_sheet e source_wb) (enumerate 0 (sorted_pack_sheets cfg))
       \<lparr>dest_wb = Workbook, copied = [], missing = [], total_expected_pages = 0\<rparr> = Inr st'"
    by (auto simp: Workbook_def Worksheet_def PrintPageSetup_def)
  with assms(1,2) show ?thesis
    by (simp add: create_pack_workbook_def)
qed

text \<open>
  A source sheet whose page setup is not empty and was parsed from a file ends the run:
  reading \<open>fitToPage\<close> from it raises.
\<close>

lemma process_sheet_raises:
  assumes n: "name sc = Some n" and s: "getitem source_wb n = Inr s"
    and found: "n \<in> set (sheetnames source_wb)"
    and valid: "valid_title n" and wf: "well_formed_sheet s"
    and ps: "page_setup_bool (page_setup s)" "\<not> worksheet_bound (page_setup s)"
    and st: "i = 0 \<longrightarrow> dest_wb st \<noteq> [] \<and> MergedCell \<notin> snd ` set (cells (dest_wb st ! 0))
      \<and> worksheet_bound (page_setup (dest_wb st ! 0))"
  shows "process_sheet e source_wb (i, sc) st = Inl (AttributeError ''sheet_properties'')"
proof -
  from create_dest_sheet_returns [OF valid st] obtain wb k where
    c: "create_dest_sheet (dest_wb st) i n = Inr (wb, k)"
      "MergedCell \<notin> snd ` set (cells (wb ! k))" by blast
  from copy_sheet_content_returns [OF wf c(2)] obtain d where
    d: "copy_sheet_content s (wb ! k) = Inr d" by blast
  from n found s c(1) d show ?thesis
    by (simp add: process_sheet_def Let_def apply_page_setup_raises [OF ps])
qed

subsection \<open>The sheets of the destination workbook\<close>

lemma Worksheet_title_update: "(Worksheet t)\<lparr>title := t'\<rparr> = Worksheet t'"
  by (simp add: Worksheet_def)

lemma process_sheet_append_sheet:
  assumes step: "process_sheet e source_wb (i, sc) st = Inr st1"
    and found: "found_in source_wb sc"
    and i: "0 < i"
  shows "\<exists>n source_sheet t d2 d3.
      name sc = Some n \<and> getitem source_wb n = Inr source_sheet
      \<and> set_title (sheetnames (dest_wb st)) [] (if n = [] then ''Sheet'' else n) = Inr t
      \<and> title d2 = t
      \<and> apply_page_setup d2 sc source_sheet = Inr d3
      \<and> dest_wb st1 = dest_wb st @ [d3]"
proof -
  from process_sheet_found [OF step found] obtain n source_sheet wb k d1 d3 where
    n: "name sc = Some n" and s: "getitem source_wb n = Inr source_sheet"
    and c: "create_dest_sheet (dest_wb st) i n = Inr (wb, k)"
    and d1: "copy_sheet_content source_sheet (wb ! k) = Inr d1"
    and d3: "apply_page_setup
        (d1\<lparr>print_area := assign_print_area e (title d1) (get_print_area source_sheet n)\<rparr>)
        sc source_sheet = Inr d3"
    and st1: "dest_wb st1 = wb[k := d3]"
    by auto
  from c i obtain t where
    t: "set_title (sheetnames (dest_wb st)) [] (if n = [] then ''Sheet'' else n) = Inr t"
    and wb: "wb = dest_wb st @ [Worksheet t]" and k: "k = length (dest_wb st)"
    by (auto simp: create_dest_sheet_def create_sheet_def split: sum.splits)
  from copy_sheet_content_title [OF d1] wb k
  have "title (d1\<lparr>print_area :=
      assign_print_area e (title d1) (get_print_area source_sheet n)\<rparr>) = t"
    by (simp add: Worksheet_def)
  moreover from st1 wb k have "dest_wb st1 = dest_wb st @ [d3]"
    by simp
  ultimately show ?thesis using n s t d3 by blast
qed

lemma process_sheet_rename_sheet:
  assumes step: "process_sheet e source_wb (0, sc) st = Inr st1"
    and found: "found_in source_wb sc"
    and st: "dest_wb st = Workbook"
  shows "\<exists>n source_sheet t d2 d3.
      name sc = Some n \<and> getitem source_wb n = Inr source_sheet
      \<and> set_title [''Sheet''] ''Sheet'' n = Inr t
      \<and> title d2 = t
      \<and> apply_page_setup d2 sc source_sheet = Inr d3
      \<and> dest_wb st1 = [d3]"
proof -
  from process_sheet_found [OF step found] obtain n source_sheet wb k d1 d3 where
    n: "name sc = Some n" and s: "getitem source_wb n = Inr source_sheet"
    and c: "create_dest_sheet (dest_wb st) 0 n = Inr (wb, k)"
    and d1: "copy_sheet_content source_sheet (wb ! k) = Inr d1"
    and d3: "apply_page_setup
        (d1\<lparr>print_area := assign_print_area e (title d1) (get_print_area source_sheet n)\<rparr>)
        sc source_sheet = Inr d3"
    and st1: "dest_wb st1 = wb[k := d3]"
    by auto
  from c st obtain t where
    t: "set_title [''Sheet''] ''Sheet'' n = Inr t"
    and wb: "wb = [Worksheet t]" and k: "k = 0"
    by (auto simp: create_dest_sheet_def Workbook_def Worksheet_title_update sheetnames_def
        split: sum.splits) (simp add: Worksheet_def)
  from copy_sheet_content_title [OF d1] wb k
  have "title (d1\<lparr>print_area :=
      assign_print_area e (title d1) (get_print_area source_sheet n)\<rparr>) = t"
    by (simp add: Worksheet_def)
  moreover from st1 wb k have "dest_wb st1 = [d3]"
    by simp
  ultimately show ?thesis using n s t d3 by blast
qed

lemma process_sheets_dest:
  assumes "for_each (process_sheet e source_wb) (enumerate i ps) st = Inr st'"
    and "0 < i"
  shows "\<exists>ds. dest_wb st' = dest_wb st @ ds
    \<and> list_all2 (\<lambda>sc d. \<exists>d2 s. apply_page_setup d2 sc s = Inr d)
        (filter (found_in source_wb) ps) ds"
  using assms
proof (induction ps arbitrary: i st)
  case Nil
  then show ?case by simp
next
  case (Cons sc ps)
  from Cons.prems(1) obtain st1 where
    step: "process_sheet e source_wb (i, sc) st = Inr st1" and
    rest: "for_each (process_sheet e source_wb) (enumerate (Suc i) ps) st1 = Inr st'"
    by (auto split: sum.splits)
  from Cons.IH [OF rest] obtain ds where
    ds: "dest_wb st' = dest_wb st1 @ ds"
      "list_all2 (\<lambda>sc d. \<exists>d2 s. apply_page_setup d2 sc s = Inr d)
        (filter (found_in source_wb) ps) ds"
    by auto
  show ?case
  proof (cases "found_in source_wb sc")
    case True
    from process_sheet_append_sheet [OF step True Cons.prems(2)]
    obtain d where "dest_wb st1 = dest_wb st @ [d]"
      "\<exists>d2 s. apply_page_setup d2 sc s = Inr d"
      by blast
    with ds True show ?thesis by simp
  next
    case False
    from process_sheet_missing [OF step False] have "dest_wb st1 = dest_wb st" by auto
    with ds False show ?thesis by simp
  qed
qed

text \<open>
  The destination workbook of a run: the sheets that \<open>apply_page_setup\<close> returned for
  the configured sheets found in the source, in processing order, after the default
  sheet when the first entry in processing order is not found (or there is none).
\<close>

lemma process_sheets_from_Workbook:
  assumes loop: "for_each (process_sheet e source_wb) (enumerate 0 ps)
        \<lparr>dest_wb = Workbook, copied = [], missing = [], total_expected_pages = 0\<rparr> = Inr st'"
  shows "\<exists>ds. dest_wb st' = (if first_found source_wb ps then [] else Workbook) @ ds
    \<and> list_all2 (\<lambda>sc d. \<exists>d2 s. apply_page_setup d2 sc s = Inr d)
        (filter (found_in source_wb) ps) ds"
proof (cases ps)
  case Nil
  with loop have "dest_wb st' = Workbook" by auto
  with Nil show ?thesis by (simp add: first_found_def)
next
  case (Cons sc rest)
  let ?st0 = "\<lparr>dest_wb = Workbook, copied = [], missing = [], total_expected_pages = 0\<rparr>"
  from loop Cons obtain st1 where
    step: "process_sheet e source_wb (0, sc) ?st0 = Inr st1" and
    rest: "for_each (process_sheet e source_wb) (enumerate (Suc 0) rest) st1 = Inr st'"
    by (auto split: sum.splits)
  from process_sheets_dest [OF rest] obtain ds where
    ds: "dest_wb st' = dest_wb st1 @ ds"
      "list_all2 (\<lambda>sc d. \<exists>d2 s. apply_page_setup d2 sc s = Inr d)
        (filter (found_in source_wb) rest) ds"
    by auto
  show ?thesis
  proof (cases "found_in source_wb sc")
    case True
    from process_sheet_rename_sheet [OF step True]
    obtain d where "dest_wb st1 = [d]" "\<exists>d2 s. apply_page_setup d2 sc s = Inr d"
      by auto
    with ds True Cons show ?thesis by (simp add: first_found_def)
  next
    case False
    from process_sheet_missing [OF step False] have "dest_wb st1 = Workbook" by auto
    with ds False Cons show ?thesis by (simp add: first_found_def)
  qed
qed

lemma create_pack_workbook_sheets:
  assumes "create_pack_workbook e source_path output_path cfg = Inr (res, wb)"
    and "load_workbook e source_path = Inr source_wb"
  shows "\<exists>ds. wb = (if first_found source_wb (sorted_pack_sheets cfg) then [] else Workbook) @ ds
    \<and> list_all2 (\<lambda>sc d. \<exists>d2 s. apply_page_setup d2 sc s = Inr d)
        (filter (found_in source_wb) (sorted_pack_sheets cfg)) ds"
proof -
  from create_pack_workbook_result [OF assms] obtain st where
    "for_each (process_sheet e source_wb) (enumerate 0 (sorted_pack_sheets cfg))
        \<lparr>dest_wb = Workbook, copied = [], missing = [], total_expected_pages = 0\<rparr> = Inr st"
    and "wb = dest_wb st"
    by blast
  with process_sheets_from_Workbook show ?thesis by simp
qed

subsection \<open>The titles of the destination sheets\<close>

lemma avoid_duplicate_name_fresh:
  assumes "lower v \<notin> set (map lower names)"
  shows "avoid_duplicate_name names v = v"
proof -
  have "\<not> (\<exists>n \<in> set names. lower n = lower v)"
  proof
    assume "\<exists>n \<in> set names. lower n = lower v"
    then obtain n where "n \<in> set names" "lower n = lower v" by blast
    then have "lower v \<in> lower ` set names" by (metis imageI)
    with assms show False by simp
  qed
  then show ?thesis by (simp only: avoid_duplicate_name_def if_False)
qed

lemma set_title_fresh:
  assumes "set_title names old v = Inr t" and "lower v \<notin> set (map lower names)"
  shows "t = v"
  using assms by (auto simp: set_title_def avoid_duplicate_name_fresh split: if_splits)

lemma process_sheet_append_title:
  assumes step: "process_sheet e source_wb (i, sc) st = Inr st1"
    and found: "found_in source_wb sc"
    and i: "0 < i"
    and n: "name sc = Some n" "n \<noteq> []"
    and fresh: "lower n \<notin> set (map lower (sheetnames (dest_wb st)))"
  shows "sheetnames (dest_wb st1) = sheetnames (dest_wb st) @ [n]"
proof -
  from process_sheet_append_sheet [OF step found i] n obtain source_sheet t d2 d3 where
    t: "set_title (sheetnames (dest_wb st)) [] n = Inr t"
    and d2: "title d2 = t"
    and d3: "apply_page_setup d2 sc source_sheet = Inr d3"
    and st1: "dest_wb st1 = dest_wb st @ [d3]"
    by auto
  from set_title_fresh [OF t fresh] have "t = n" .
  with apply_page_setup_Inr(1) [OF d3] d2 st1 show ?thesis
    by (simp add: sheetnames_def)
qed

lemma process_sheets_titles:
  assumes "for_each (process_sheet e source_wb) (enumerate i ps) st = Inr st'"
    and "0 < i"
    and "[] \<notin> set (names_of (filter (found_in source_wb) ps))"
    and "distinct (map lower (sheetnames (dest_wb st)
          @ names_of (filter (found_in source_wb) ps)))"
  shows "sheetnames (dest_wb st')
    = sheetnames (dest_wb st) @ names_of (filter (found_in source_wb) ps)"
  using assms
proof (induction ps arbitrary: i st)
  case Nil
  then show ?case by (simp add: names_of_Nil)
next
  case (Cons sc ps)
  from Cons.prems(1) obtain st1 where
    step: "process_sheet e source_wb (i, sc) st = Inr st1" and
    rest: "for_each (process_sheet e source_wb) (enumerate (Suc i) ps) st1 = Inr st'"
    by (auto split: sum.splits)
  from process_sheet_name [OF step] obtain n where n: "name sc = Some n" by blast
  show ?case
  proof (cases "found_in source_wb sc")
    case True
    with n have names: "names_of (filter (found_in source_wb) (sc # ps))
        = n # names_of (filter (found_in source_wb) ps)"
      by (simp add: names_of_Cons)
    with Cons.prems(3,4) have ne: "n \<noteq> []"
      and rest_ne: "[] \<notin> set (names_of (filter (found_in source_wb) ps))"
      and fresh: "lower n \<notin> set (map lower (sheetnames (dest_wb st)))"
      by auto
    from process_sheet_append_title [OF step True Cons.prems(2) n ne fresh]
    have t1: "sheetnames (dest_wb st1) = sheetnames (dest_wb st) @ [n]" .
    with Cons.prems(4) names
    have "distinct (map lower (sheetnames (dest_wb st1)
          @ names_of (filter (found_in source_wb) ps)))"
      by simp
    from Cons.IH [OF rest _ rest_ne this] t1 names show ?thesis by simp
  next
    case False
    from process_sheet_missing [OF step False] have "dest_wb st1 = dest_wb st" by auto
    with Cons.IH [OF rest] Cons.prems(3,4) False show ?thesis by simp
  qed
qed

lemma process_sheet_rename_title:
  assumes step: "process_sheet e source_wb (0, sc) st = Inr st1"
    and found: "found_in source_wb sc"
    and n: "name sc = Some n"
    and st: "dest_wb st = Workbook"
    and fresh: "lower n \<noteq> lower ''Sheet''"
  shows "sheetnames (dest_wb st1) = [n]"
proof -
  from process_sheet_rename_sheet [OF step found st] n obtain source_sheet t d2 d3 where
    t: "set_title [''Sheet''] ''Sheet'' n = Inr t"
    and d2: "title d2 = t"
    and d3: "apply_page_setup d2 sc source_sheet = Inr d3"
    and st1: "dest_wb st1 = [d3]"
    by auto
  from set_title_fresh [OF t] fresh have "t = n" by simp
  with apply_page_setup_Inr(1) [OF d3] d2 st1 show ?thesis
    by (simp add: sheetnames_def)
qed

lemma sheetnames_Workbook: "sheetnames Workbook = [''Sheet'']"
  by (simp add: Workbook_def sheetnames_def Worksheet_def)

lemma process_sheets_titles_from_Workbook:
  assumes loop: "for_each (process_sheet e source_wb) (enumerate 0 ps)
        \<lparr>dest_wb = Workbook, copied = [], missing = [], total_expected_pages = 0\<rparr> = Inr st'"
    and ne: "[] \<notin> set (names_of (filter (found_in source_wb) ps))"
    and dist: "distinct (map lower (''Sheet'' # names_of (filter (found_in source_wb) ps)))"
  shows "sheetnames (dest_wb st')
    = (if first_found source_wb ps then [] else [''Sheet''])
      @ names_of (filter (found_in source_wb) ps)"
proof (cases ps)
  case Nil
  with loop have "dest_wb st' = Workbook" by auto
  with Nil show ?thesis
    by (simp add: first_found_def names_of_Nil sheetnames_Workbook)
next
  case (Cons sc rest)
  let ?st0 = "\<lparr>dest_wb = Workbook, copied = [], missing = [], total_expected_pages = 0\<rparr>"
  from loop Cons obtain st1 where
    step: "process_sheet e source_wb (0, sc) ?st0 = Inr st1" and
    rest: "for_each (process_sheet e source_wb) (enumerate (Suc 0) rest) st1 = Inr st'"
    by (auto split: sum.splits)
  from process_sheet_name [OF step] obtain n where n: "name sc = Some n" by blast
  show ?thesis
  proof (cases "found_in source_wb sc")
    case True
    with n Cons have names: "names_of (filter (found_in source_wb) ps)
        = n # names_of (filter (found_in source_wb) rest)"
      by (simp add: names_of_Cons)
    with dist have "lower n \<noteq> lower ''Sheet''" by auto
    from process_sheet_rename_title [OF step True n _ this]
    have t1: "sheetnames (dest_wb st1) = [n]" by simp
    from ne names have rest_ne: "[] \<notin> set (names_of (filter (found_in source_wb) rest))"
      by simp
    from dist names t1
    have "distinct (map lower (sheetnames (dest_wb st1)
          @ names_of (filter (found_in source_wb) rest)))"
      by simp
    from process_sheets_titles [OF rest _ rest_ne this] t1 names True Cons
    show ?thesis by (simp add: first_found_def)
  next
    case False
    from process_sheet_missing [OF step False] have st1: "dest_wb st1 = Workbook" by auto
    from False Cons have names: "names_of (filter (found_in source_wb) ps)
        = names_of (filter (found_in source_wb) rest)"
      by simp
    from ne names have rest_ne: "[] \<notin> set (names_of (filter (found_in source_wb) rest))"
      by simp
    from dist names st1
    have "distinct (map lower (sheetnames (dest_wb st1)
          @ names_of (filter (found_in source_wb) rest)))"
      by (simp add: sheetnames_Workbook)
    from process_sheets_titles [OF rest _ rest_ne this] st1 names False Cons
    show ?thesis by (simp add: first_found_def sheetnames_Workbook)
  qed
qed



text \<open>
  C5. When \<open>apply_page_setup\<close> returns, the margins of the destination sheet are left,
  right, top and bottom 0.5, header and footer 0.3, for every destination sheet, source
  sheet and configuration entry. So in the workbook of a run that returns, every sheet
  made for a configured sheet has these margins.
\<close>

theorem fixed_margins:
  "(apply_page_setup dest_sheet config_sheet source_sheet = Inr dest' \<longrightarrow>
      page_margins dest'
        = \<lparr>left = 0.5, right = 0.5, top_ = 0.5, bottom = 0.5, header = 0.3, footer = 0.3\<rparr>)
   \<and> (create_pack_workbook e source_path output_path cfg = Inr (res, wb)
        \<and> load_workbook e source_path = Inr source_wb \<longrightarrow>
      (\<exists>ds. wb = (if first_found source_wb (sorted_pack_sheets cfg) then [] else Workbook) @ ds
         \<and> list_all2 (\<lambda>sc d. page_margins d
              = \<lparr>left = 0.5, right = 0.5, top_ = 0.5, bottom = 0.5,
                 header = 0.3, footer = 0.3\<rparr>)
             (filter (found_in source_wb) (sorted_pack_sheets cfg)) ds))"
proof (intro conjI impI)
  show "page_margins dest'
     = \<lparr>left = 0.5, right = 0.5, top_ = 0.5, bottom = 0.5, header = 0.3, footer = 0.3\<rparr>"
    if "apply_page_setup dest_sheet config_sheet source_sheet = Inr dest'"
    using that by (rule apply_page_setup_Inr(6))
next
  assume "create_pack_workbook e source_path output_path cfg = Inr (res, wb)
    \<and> load_workbook e source_path = Inr source_wb"
  then obtain ds where
    "wb = (if first_found source_wb (sorted_pack_sheets cfg) then [] else Workbook) @ ds"
    and "list_all2 (\<lambda>sc d. \<exists>d2 s. apply_page_setup d2 sc s = Inr d)
        (filter (found_in source_wb) (sorted_pack_sheets cfg)) ds"
    using create_pack_workbook_sheets by blast
  moreover from this(2)
  have "list_all2 (\<lambda>sc d. page_margins d
        = \<lparr>left = 0.5, right = 0.5, top_ = 0.5, bottom = 0.5, header = 0.3, footer = 0.3\<rparr>)
      (filter (found_in source_wb) (sorted_pack_sheets cfg)) ds"
    by (rule list_all2_mono) (auto dest: apply_page_setup_Inr(6))
  ultimately show "\<exists>ds.
      wb = (if first_found source_wb (sorted_pack_sheets cfg) then [] else Workbook) @ ds
      \<and> list_all2 (\<lambda>sc d. page_margins d
            = \<lparr>left = 0.5, right = 0.5, top_ = 0.5, bottom = 0.5,
               header = 0.3, footer = 0.3\<rparr>)
          (filter (found_in source_wb) (sorted_pack_sheets cfg)) ds"
    by blast
qed

subsection \<open>Example runs\<close>

lemma example_summary_eval:
  "title example_summary = ''Summary''"
  "merged_cells example_summary = []"
  "page_setup_bool (page_setup example_summary)"
  "\<not> worksheet_bound (page_setup example_summary)"
  by (simp_all add: example_summary_def Worksheet_def page_setup_bool_def)

lemma Worksheet_eval:
  "title (Worksheet t) = t"
  "merged_cells (Worksheet t) = []"
  "cells (Worksheet t) = []"
  "no_page_setup (Worksheet t)"
  "worksheet_bound (page_setup (Worksheet t))"
  by (simp_all add: Worksheet_def no_page_setup_def page_setup_bool_def PrintPageSetup_def)

lemma Worksheet_well_formed: "well_formed_sheet (Worksheet t)"
  by (simp add: well_formed_sheet_def Worksheet_def)

lemma example_summary_well_formed: "well_formed_sheet example_summary"
  by (simp add: well_formed_sheet_def example_summary_def Worksheet_def)

lemma example_sheet_no_page_setup: "no_page_setup example_sheet"
  by (simp add: no_page_setup_def example_sheet_eval(5) page_setup_bool_def PrintPageSetup_def)

lemma valid_title_examples:
  "valid_title ''Summary''" "valid_title ''Data''" "valid_title ''Notes''"
  "valid_title ''Other''"
  by (simp_all add: valid_title_def INVALID_TITLE_CHARS_def)

lemma example_sources_ok:
  "\<forall>s \<in> set example_source. well_formed_sheet s \<and> valid_title (title s) \<and> no_page_setup s"
  "\<forall>s \<in> set example_source_without_summary.
     well_formed_sheet s \<and> valid_title (title s) \<and> no_page_setup s"
  "\<forall>s \<in> set [Worksheet ''Other''].
     well_formed_sheet s \<and> valid_title (title s) \<and> no_page_setup s"
  by (simp_all add: example_source_def example_source_without_summary_def
      example_sheet_well_formed example_sheet_eval(4) Worksheet_eval
      valid_title_examples Worksheet_well_formed example_sheet_no_page_setup)

lemma example_sheetnames:
  "sheetnames example_source = [''Summary'', ''Data'', ''Notes'']"
  "sheetnames example_source_with_page_setup = [''Summary'', ''Data'', ''Notes'']"
  "sheetnames example_source_without_summary = [''Data'', ''Notes'']"
  "sheetnames [Worksheet ''Other''] = [''Other'']"
  by (simp_all add: sheetnames_def example_source_def example_source_with_page_setup_def
      example_source_without_summary_def example_sheet_eval(4) example_summary_eval
      Worksheet_eval)

lemma example_spec_eval:
  "name summary_spec = Some ''Summary''" "order_key summary_spec = 1"
  "get_expected_pages summary_spec = 3" "get_orientation summary_spec = portrait"
  "name missing_spec = Some ''Missing''" "order_key missing_spec = 1"
  "name notes_spec = Some ''Notes''" "order_key notes_spec = 1"
  "name data_spec = Some ''Data''" "order_key data_spec = 999" "order data_spec = None"
  "get_expected_pages data_spec = 4" "get_orientation data_spec = landscape"
  by (simp_all add: summary_spec_def missing_spec_def notes_spec_def data_spec_def
      order_key_def get_expected_pages_def get_orientation_def)

lemma example_configured:
  "configured_sheets example_pack = [data_spec, summary_spec, missing_spec]"
  "configured_sheets example_pack_ties = [data_spec, summary_spec, missing_spec, notes_spec]"
  "configured_sheets empty_pack = []"
  by (simp_all add: configured_sheets_def example_pack_def example_pack_ties_def
      empty_pack_def)

lemma example_sorted:
  "sorted_pack_sheets example_pack = [summary_spec, missing_spec, data_spec]"
  "sorted_pack_sheets example_pack_ties = [summary_spec, missing_spec, notes_spec, data_spec]"
  "sorted_pack_sheets empty_pack = []"
  by (simp_all add: sorted_pack_sheets_def example_configured example_spec_eval)

lemma example_found_in:
  "found_in example_source summary_spec" "\<not> found_in example_source missing_spec"
  "found_in example_source notes_spec" "found_in example_source data_spec"
  "\<not> found_in example_source_without_summary summary_spec"
  "\<not> found_in example_source_without_summary missing_spec"
  "found_in example_source_without_summary data_spec"
  "\<not> found_in [Worksheet ''Other''] summary_spec"
  "\<not> found_in [Worksheet ''Other''] missing_spec"
  "\<not> found_in [Worksheet ''Other''] data_spec"
  by (simp_all add: found_in_def example_spec_eval example_sheetnames)

lemma example_env_simps:
  "load_workbook (example_env wb cfg f) p = Inr wb"
  "load_pack_config (example_env wb cfg f) p = Inr cfg"
  "save (example_env wb cfg f) d p = None"
  "path_exists (example_env wb cfg f) p"
  "assign_print_area (example_env wb cfg f) = f"
  by (simp_all add: example_env_def)

lemma example_names:
  "\<forall>sc \<in> set (configured_sheets example_pack). name sc \<noteq> None"
  "\<forall>sc \<in> set (configured_sheets example_pack_ties). name sc \<noteq> None"
  "\<forall>sc \<in> set (configured_sheets empty_pack). name sc \<noteq> None"
  by (simp_all add: example_configured example_spec_eval)

lemma example_env_returns:
  assumes "\<forall>sc \<in> set (configured_sheets cfg). name sc \<noteq> None"
    and "\<forall>s \<in> set source_wb. well_formed_sheet s \<and> valid_title (title s) \<and> no_page_setup s"
  shows "\<exists>res wb. create_pack_workbook (example_env source_wb c f) source_path output_path cfg
    = Inr (res, wb)"
  by (rule create_pack_workbook_returns [where source_wb = source_wb])
    (simp_all add: example_env_simps assms)

lemma lower_examples:
  "lower ''Sheet'' = ''sheet''" "lower ''Summary'' = ''summary''"
  "lower ''Notes'' = ''notes''" "lower ''Data'' = ''data''"
  by code_simp+



theorem fixed_margins_witness:
  "\<forall>f. \<exists>res wb.
     create_pack_workbook (example_env example_source example_pack f)
       ''golden.xlsx'' ''golden_pack.xlsx'' example_pack = Inr (res, wb)
     \<and> map page_margins wb
         = [\<lparr>left = 0.5, right = 0.5, top_ = 0.5, bottom = 0.5, header = 0.3, footer = 0.3\<rparr>,
            \<lparr>left = 0.5, right = 0.5, top_ = 0.5, bottom = 0.5, header = 0.3, footer = 0.3\<rparr>]"
proof
  fix f
  let ?e = "example_env example_source example_pack f"
  from example_env_returns [OF example_names(1) example_sources_ok(1)] obtain res wb where
    run: "create_pack_workbook ?e ''golden.xlsx'' ''golden_pack.xlsx'' example_pack
      = Inr (res, wb)"
    by blast
  then have "create_pack_workbook ?e ''golden.xlsx'' ''golden_pack.xlsx'' example_pack
      = Inr (res, wb) \<and> load_workbook ?e ''golden.xlsx'' = Inr example_source"
    by (simp add: example_env_simps)
  from fixed_margins [THEN conjunct2, THEN mp, OF this]
  obtain ds where "wb = ds"
    and "list_all2 (\<lambda>sc d. page_margins d
        = \<lparr>left = 0.5, right = 0.5, top_ = 0.5, bottom = 0.5, header = 0.3, footer = 0.3\<rparr>)
      [summary_spec, data_spec] ds"
    by (auto simp: example_sorted example_found_in first_found_def)
  then have "map page_margins wb
      = [\<lparr>left = 0.5, right = 0.5, top_ = 0.5, bottom = 0.5, header = 0.3, footer = 0.3\<rparr>,
         \<lparr>left = 0.5, right = 0.5, top_ = 0.5, bottom = 0.5, header = 0.3, footer = 0.3\<rparr>]"
    by (auto simp: list_all2_Cons1)
  with run show "\<exists>res wb.
     create_pack_workbook ?e ''golden.xlsx'' ''golden_pack.xlsx'' example_pack = Inr (res, wb)
     \<and> map page_margins wb
         = [\<lparr>left = 0.5, right = 0.5, top_ = 0.5, bottom = 0.5, header = 0.3, footer = 0.3\<rparr>,
            \<lparr>left = 0.5, right = 0.5, top_ = 0.5, bottom = 0.5, header = 0.3, footer = 0.3\<rparr>]"
    by (intro exI conjI)
qed

theorem missing_sheets_non_fatal_witness:
  "\<forall>f. process_sheet (example_env example_source example_pack f) example_source
        (1, missing_spec)
        \<lparr>dest_wb = Workbook, copied = [''Summary''], missing = [], total_expected_pages = 3\<rparr>
      = Inr \<lparr>dest_wb = Workbook, copied = [''Summary''], missing = [''Missing''],
             total_expected_pages = 3\<rparr>
   \<and> (\<exists>res wb.
        create_pack_workbook (example_env example_source example_pack f)
          ''golden.xlsx'' ''golden_pack.xlsx'' example_pack = Inr (res, wb)
        \<and> sheets_copied res = [''Summary'', ''Data'']
        \<and> sheets_missing res = [''Missing'']
        \<and> set (sheets_copied res) \<union> set (sheets_missing res)
            = {''Data'', ''Summary'', ''Missing''}
        \<and> set (sheets_copied res) \<inter> set (sheets_missing res) = {})"
proof (intro allI conjI)
  fix f
  let ?e = "example_env example_source example_pack f"
  let ?st = "\<lparr>dest_wb = Workbook, copied = [''Summary''], missing = [],
    total_expected_pages = 3\<rparr>"
  have "name missing_spec = Some ''Missing''
      \<and> ''Missing'' \<notin> set (sheetnames example_source)"
    by (simp add: example_sheetnames example_spec_eval)
  from missing_sheets_non_fatal [THEN conjunct1, THEN mp, OF this, of ?e 1 ?st]
  show "process_sheet ?e example_source (1, missing_spec) ?st
    = Inr \<lparr>dest_wb = Workbook, copied = [''Summary''], missing = [''Missing''],
           total_expected_pages = 3\<rparr>"
    by simp
next
  fix f
  let ?e = "example_env example_source example_pack f"
  from example_env_returns [OF example_names(1) example_sources_ok(1)] obtain res wb where
    run: "create_pack_workbook ?e ''golden.xlsx'' ''golden_pack.xlsx'' example_pack
      = Inr (res, wb)"
    by blast
  then have "create_pack_workbook ?e ''golden.xlsx'' ''golden_pack.xlsx'' example_pack
      = Inr (res, wb) \<and> load_workbook ?e ''golden.xlsx'' = Inr example_source"
    by (simp add: example_env_simps)
  note r = missing_sheets_non_fatal [THEN conjunct2, THEN mp, OF this]
  from r have c: "sheets_copied res = [''Summary'', ''Data'']"
    by (simp add: example_sorted example_found_in names_of_Cons names_of_Nil
        example_spec_eval)
  from r have m: "sheets_missing res = [''Missing'']"
    by (simp add: example_sorted example_found_in names_of_Cons names_of_Nil
        example_spec_eval)
  from r have "set (sheets_copied res) \<union> set (sheets_missing res)
      = set (names_of (configured_sheets example_pack))"
    by blast
  also have "\<dots> = {''Data'', ''Summary'', ''Missing''}"
    by (simp add: example_configured names_of_Cons names_of_Nil example_spec_eval)
  finally have u: "set (sheets_copied res) \<union> set (sheets_missing res)
      = {''Data'', ''Summary'', ''Missing''}" .
  from r have i: "set (sheets_copied res) \<inter> set (sheets_missing res) = {}"
    by blast
  from run c m u i show "\<exists>res wb.
      create_pack_workbook ?e ''golden.xlsx'' ''golden_pack.xlsx'' example_pack = Inr (res, wb)
      \<and> sheets_copied res = [''Summary'', ''Data'']
      \<and> sheets_missing res = [''Missing'']
      \<and> set (sheets_copied res) \<union> set (sheets_missing res)
          = {''Data'', ''Summary'', ''Missing''}
      \<and> set (sheets_copied res) \<inter> set (sheets_missing res) = {}"
    by (intro exI conjI)
qed

theorem expected_pages_sum_witness:
  "\<forall>f. \<exists>res wb.
     create_pack_workbook (example_env example_source example_pack f)
       ''golden.xlsx'' ''golden_pack.xlsx'' example_pack = Inr (res, wb)
     \<and> sheets_copied res = [''Summary'', ''Data'']
     \<and> result_expected_pages res = 7"
proof
  fix f
  let ?e = "example_env example_source example_pack f"
  from example_env_returns [OF example_names(1) example_sources_ok(1)] obtain res wb where
    run: "create_pack_workbook ?e ''golden.xlsx'' ''golden_pack.xlsx'' example_pack
      = Inr (res, wb)"
    by blast
  have load: "load_workbook ?e ''golden.xlsx'' = Inr example_source"
    by (simp add: example_env_simps)
  from expected_pages_sum [OF run load]
  have "sheets_copied res = [''Summary'', ''Data'']" and "result_expected_pages res = 7"
    by (simp_all add: example_sorted example_found_in names_of_Cons names_of_Nil
        example_spec_eval)
  with run show "\<exists>res wb.
     create_pack_workbook ?e ''golden.xlsx'' ''golden_pack.xlsx'' example_pack = Inr (res, wb)
     \<and> sheets_copied res = [''Summary'', ''Data'']
     \<and> result_expected_pages res = 7"
    by (intro exI conjI)
qed

theorem returned_result_exit_code_witness:
  "\<forall>f. \<exists>res wb.
     create_pack_workbook (example_env [Worksheet ''Other''] example_pack f)
       (arg_source example_args) (arg_output example_args) example_pack = Inr (res, wb)
     \<and> sheets_copied res = []
     \<and> sheets_missing res = [''Summary'', ''Missing'', ''Data'']
     \<and> success res
     \<and> main (example_env [Worksheet ''Other''] example_pack f) example_args = 0"
proof
  fix f
  let ?e = "example_env [Worksheet ''Other''] example_pack f"
  from example_env_returns [OF example_names(1) example_sources_ok(3)] obtain res wb where
    run: "create_pack_workbook ?e (arg_source example_args) (arg_output example_args)
      example_pack = Inr (res, wb)"
    by blast
  have load: "load_workbook ?e (arg_source example_args) = Inr [Worksheet ''Other'']"
    by (simp add: example_env_simps)
  from create_pack_workbook_result [OF run load] obtain st where
    loop: "for_each (process_sheet ?e [Worksheet ''Other''])
        (enumerate 0 (sorted_pack_sheets example_pack))
        \<lparr>dest_wb = Workbook, copied = [], missing = [], total_expected_pages = 0\<rparr> = Inr st"
    and res: "sheets_copied res = copied st" "sheets_missing res = missing st"
    by blast
  from process_sheets_lists [OF loop] res
  have c: "sheets_copied res = []"
    and m: "sheets_missing res = [''Summary'', ''Missing'', ''Data'']"
    by (simp_all add: example_sorted example_found_in names_of_Cons names_of_Nil
        example_spec_eval)
  from returned_result_exit_code [OF run]
  have "success res" and "main ?e example_args = 0"
    by (simp_all add: example_env_simps)
  with run c m show "\<exists>res wb.
     create_pack_workbook ?e (arg_source example_args) (arg_output example_args) example_pack
       = Inr (res, wb)
     \<and> sheets_copied res = []
     \<and> sheets_missing res = [''Summary'', ''Missing'', ''Data'']
     \<and> success res
     \<and> main ?e example_args = 0"
    by (intro exI conjI)
qed

text \<open>
  C1. The default sheet of the new workbook is renamed only when the loop index is 0
  and that entry is found in the source. With the configuration \<open>example_pack\<close> and a
  source without the sheet \<open>Summary\<close>, the entry processed first is missing, the run
  returns, and the saved workbook has the sheets \<open>Sheet\<close> and \<open>Data\<close> although only
  \<open>Data\<close> was copied; with an empty \<open>pack_sheets\<close> the saved workbook is the
  untouched default sheet alone.
\<close>

theorem default_sheet_left_over:
  "(\<exists>res wb.
      create_pack_workbook (example_env example_source_without_summary example_pack f)
        ''golden.xlsx'' ''golden_pack.xlsx'' example_pack = Inr (res, wb)
      \<and> sheets_copied res = [''Data'']
      \<and> sheets_missing res = [''Summary'', ''Missing'']
      \<and> sheetnames wb = [''Sheet'', ''Data'']
      \<and> wb ! 0 = Worksheet ''Sheet'')
   \<and> (\<exists>res wb.
      create_pack_workbook (example_env example_source empty_pack f)
        ''golden.xlsx'' ''golden_pack.xlsx'' empty_pack = Inr (res, wb)
      \<and> sheets_copied res = []
      \<and> wb = [Worksheet ''Sheet''])"
proof
  let ?e = "example_env example_source_without_summary example_pack f"
  let ?src = example_source_without_summary
  from example_env_returns [OF example_names(1) example_sources_ok(2)] obtain res wb where
    run: "create_pack_workbook ?e ''golden.xlsx'' ''golden_pack.xlsx'' example_pack
      = Inr (res, wb)"
    by blast
  have load: "load_workbook ?e ''golden.xlsx'' = Inr ?src"
    by (simp add: example_env_simps)
  from create_pack_workbook_result [OF run load] obtain st where
    loop: "for_each (process_sheet ?e ?src) (enumerate 0 (sorted_pack_sheets example_pack))
        \<lparr>dest_wb = Workbook, copied = [], missing = [], total_expected_pages = 0\<rparr> = Inr st"
    and res: "sheets_copied res = copied st" "sheets_missing res = missing st"
      "wb = dest_wb st"
    by blast
  have found: "names_of (filter (found_in ?src) (sorted_pack_sheets example_pack)) = [''Data'']"
    by (simp add: example_sorted example_found_in names_of_Cons names_of_Nil
        example_spec_eval)
  from process_sheets_lists [OF loop] res
  have c: "sheets_copied res = [''Data'']"
    and m: "sheets_missing res = [''Summary'', ''Missing'']"
    by (simp_all add: example_sorted example_found_in names_of_Cons names_of_Nil
        example_spec_eval)
  have "sheetnames (dest_wb st)
      = (if first_found ?src (sorted_pack_sheets example_pack) then [] else [''Sheet''])
        @ names_of (filter (found_in ?src) (sorted_pack_sheets example_pack))"
    by (rule process_sheets_titles_from_Workbook [OF loop])
      (simp_all add: found lower_examples)
  then have t: "sheetnames wb = [''Sheet'', ''Data'']"
    unfolding found by (simp add: res first_found_def example_sorted example_found_in)
  from process_sheets_from_Workbook [OF loop] res
  have w: "wb ! 0 = Worksheet ''Sheet''"
    by (auto simp: first_found_def example_sorted example_found_in Workbook_def)
  from run c m t w show "\<exists>res wb.
      create_pack_workbook ?e ''golden.xlsx'' ''golden_pack.xlsx'' example_pack = Inr (res, wb)
      \<and> sheets_copied res = [''Data'']
      \<and> sheets_missing res = [''Summary'', ''Missing'']
      \<and> sheetnames wb = [''Sheet'', ''Data'']
      \<and> wb ! 0 = Worksheet ''Sheet''"
    by (intro exI conjI)
next
  let ?e = "example_env example_source empty_pack f"
  from example_env_returns [OF example_names(3) example_sources_ok(1)] obtain res wb where
    run: "create_pack_workbook ?e ''golden.xlsx'' ''golden_pack.xlsx'' empty_pack
      = Inr (res, wb)"
    by blast
  have load: "load_workbook ?e ''golden.xlsx'' = Inr example_source"
    by (simp add: example_env_simps)
  from create_pack_workbook_result [OF run load]
  have "sheets_copied res = []" and "wb = [Worksheet ''Sheet'']"
    by (auto simp: example_sorted Workbook_def)
  with run show "\<exists>res wb.
      create_pack_workbook ?e ''golden.xlsx'' ''golden_pack.xlsx'' empty_pack = Inr (res, wb)
      \<and> sheets_copied res = []
      \<and> wb = [Worksheet ''Sheet'']"
    by (intro exI conjI)
qed

text \<open>
  C6. With a source sheet whose page setup is not empty the copy is begun and not
  finished: for a sheet loaded from a file the page setup is not bound to its sheet,
  \<open>paperSize\<close> and \<open>scale\<close> are assigned, and reading \<open>fitToPage\<close> (line 87) raises
  \<open>AttributeError\<close>. For the sheet \<open>example_summary\<close> (landscape, paper size 9,
  scale 80) \<open>apply_page_setup\<close> raises, and so does the run on a workbook with this
  sheet: nothing is saved and \<open>main\<close> exits with code 1. (What
  \<open>apply_page_setup\<close> sets when it returns, the three defaults for a source without
  page setup among them, is lemma \<open>apply_page_setup_fit\<close>.)
\<close>

theorem page_setup_copy_raises:
  "apply_page_setup (Worksheet ''Summary'') summary_spec example_summary
     = Inl (AttributeError ''sheet_properties'')
   \<and> create_pack_workbook (example_env example_source_with_page_setup example_pack f)
       ''golden.xlsx'' ''golden_pack.xlsx'' example_pack
     = Inl (AttributeError ''sheet_properties'')
   \<and> main (example_env example_source_with_page_setup example_pack f) example_args = 1"
proof (intro conjI)
  let ?e = "example_env example_source_with_page_setup example_pack f"
  let ?st0 = "\<lparr>dest_wb = Workbook, copied = [], missing = [], total_expected_pages = 0\<rparr>"
  show "apply_page_setup (Worksheet ''Summary'') summary_spec example_summary
     = Inl (AttributeError ''sheet_properties'')"
    by (rule apply_page_setup_raises) (rule example_summary_eval)+
  have s: "getitem example_source_with_page_setup ''Summary'' = Inr example_summary"
    by (simp add: getitem_def example_source_with_page_setup_def example_summary_eval)
  have "process_sheet ?e example_source_with_page_setup (0, summary_spec) ?st0
      = Inl (AttributeError ''sheet_properties'')"
    by (rule process_sheet_raises [OF example_spec_eval(1) s])
      (simp_all add: example_sheetnames valid_title_examples example_summary_well_formed
        example_summary_eval Workbook_def Worksheet_eval)
  then have loop: "for_each (process_sheet ?e example_source_with_page_setup)
      (enumerate 0 (sorted_pack_sheets example_pack)) ?st0
      = Inl (AttributeError ''sheet_properties'')"
    by (simp add: example_sorted)
  then show run: "create_pack_workbook ?e ''golden.xlsx'' ''golden_pack.xlsx'' example_pack
      = Inl (AttributeError ''sheet_properties'')"
    by (simp add: create_pack_workbook_def example_env_simps)
  then show "main ?e example_args = 1"
    by (simp add: main_def example_env_simps example_args_def)
qed

end
